theory Spec2Isabelle
  imports Main
begin

section \<open>JavaScript values used by the survey\<close>

text \<open>
  Page numbers are JavaScript numbers. The script only ever produces integers, the value
  \<^verbatim>\<open>NaN\<close> (from \<^verbatim>\<open>parseInt\<close> of a text without digits) and, after a
  \<^verbatim>\<open>JSON.stringify\<close>/\<^verbatim>\<open>JSON.parse\<close> round trip of \<^verbatim>\<open>NaN\<close>, \<^verbatim>\<open>null\<close>.
  Integers are unbounded here: the loss of precision of doubles beyond \<open>2^53\<close> and the
  exponent notation of \<^verbatim>\<open>String(n)\<close> from \<open>10^21\<close> on are not modelled.
\<close>

datatype jsval = Num int | NaN | Null

text \<open>\<^verbatim>\<open>ToNumber\<close>: \<open>None\<close> stands for \<^verbatim>\<open>NaN\<close>; \<^verbatim>\<open>null\<close> converts to 0.\<close>

fun toNumber :: "jsval \<Rightarrow> int option" where
  "toNumber (Num n) = Some n"
| "toNumber NaN = None"
| "toNumber Null = Some 0"

text \<open>The operator \<^verbatim>\<open>===\<close>: \<^verbatim>\<open>NaN\<close> equals nothing, itself included.\<close>

fun strictEq :: "jsval \<Rightarrow> jsval \<Rightarrow> bool" where
  "strictEq (Num a) (Num b) = (a = b)"
| "strictEq Null Null = True"
| "strictEq _ _ = False"

text \<open>The comparisons \<^verbatim>\<open><\<close>, \<^verbatim>\<open><=\<close>, \<^verbatim>\<open>>\<close>, \<^verbatim>\<open>>=\<close>; each is false when a side is \<^verbatim>\<open>NaN\<close>.\<close>

definition js_lt :: "jsval \<Rightarrow> jsval \<Rightarrow> bool" where
  "js_lt a b = (case (toNumber a, toNumber b) of (Some x, Some y) \<Rightarrow> x < y | _ \<Rightarrow> False)"

definition js_le :: "jsval \<Rightarrow> jsval \<Rightarrow> bool" where
  "js_le a b = (case (toNumber a, toNumber b) of (Some x, Some y) \<Rightarrow> x \<le> y | _ \<Rightarrow> False)"

definition js_gt :: "jsval \<Rightarrow> jsval \<Rightarrow> bool" where
  "js_gt a b = js_lt b a"

definition js_ge :: "jsval \<Rightarrow> jsval \<Rightarrow> bool" where
  "js_ge a b = js_le b a"

text \<open>The updates \<^verbatim>\<open>x++\<close> and \<^verbatim>\<open>x--\<close>.\<close>

definition js_inc :: "jsval \<Rightarrow> jsval" where
  "js_inc v = (case toNumber v of Some n \<Rightarrow> Num (n + 1) | None \<Rightarrow> NaN)"

definition js_dec :: "jsval \<Rightarrow> jsval" where
  "js_dec v = (case toNumber v of Some n \<Rightarrow> Num (n - 1) | None \<Rightarrow> NaN)"

subsection \<open>Numbers as text: \<^verbatim>\<open>String(n)\<close> and \<^verbatim>\<open>parseInt(s, 10)\<close>\<close>

definition isDigit :: "char \<Rightarrow> bool" where
  "isDigit c = (48 \<le> (of_char c :: nat) \<and> (of_char c :: nat) \<le> 57)"

definition digitVal :: "char \<Rightarrow> nat" where
  "digitVal c = of_char c - 48"

definition digitChar :: "nat \<Rightarrow> char" where
  "digitChar d = ''0123456789'' ! d"

text \<open>
  The white space \<^verbatim>\<open>parseInt\<close> skips, as far as it is ASCII: tab, line feed, vertical
  tab, form feed, carriage return and space. (The non-ASCII white space of ECMAScript is
  not modelled.)
\<close>

definition isWhiteSpace :: "char \<Rightarrow> bool" where
  "isWhiteSpace c = ((of_char c :: nat) \<in> {9, 10, 11, 12, 13, 32})"

function showNat :: "nat \<Rightarrow> string" where
  "showNat n = (if n < 10 then [digitChar n] else showNat (n div 10) @ [digitChar (n mod 10)])"
  by pat_completeness auto
termination
  by (relation "measure id") auto

declare showNat.simps [simp del]

definition showInt :: "int \<Rightarrow> string" where
  "showInt i = (if i < 0 then CHR ''-'' # showNat (nat (- i)) else showNat (nat i))"

text \<open>\<^verbatim>\<open>String(v)\<close>, which \<^verbatim>\<open>sessionStorage.setItem\<close> applies to a value that is not text.\<close>

fun js_toString :: "jsval \<Rightarrow> string" where
  "js_toString (Num n) = showInt n"
| "js_toString NaN = ''NaN''"
| "js_toString Null = ''null''"

definition digitsValue :: "string \<Rightarrow> nat" where
  "digitsValue ds = foldl (\<lambda>a c. 10 * a + digitVal c) 0 ds"

text \<open>
  \<^verbatim>\<open>parseInt(s, 10)\<close>: skip leading white space, read an optional sign, then the longest
  run of decimal digits; \<^verbatim>\<open>NaN\<close> when that run is empty. What follows the digits is
  ignored. The result is the exact integer; the code's result is the double nearest to
  it, which is the same number as long as it is at most \<open>2^53\<close> in size.
\<close>

definition parseInt :: "string \<Rightarrow> jsval" where
  "parseInt s =
     (let s1 = dropWhile isWhiteSpace s;
          neg = (s1 \<noteq> [] \<and> hd s1 = CHR ''-'');
          s2 = (if s1 \<noteq> [] \<and> (hd s1 = CHR ''-'' \<or> hd s1 = CHR ''+'') then tl s1 else s1);
          z = takeWhile isDigit s2
      in if z = [] then NaN
         else Num ((if neg then - 1 else 1) * int (digitsValue z)))"

section \<open>The server: survey submission and the chat relay\<close>

text \<open>
  A field of a JSON request body, as far as the endpoints look at it: they test it for
  truthiness and pass it on. \<open>JUndefined\<close> is an absent field; \<open>JObject\<close> stands for
  any object or array (always truthy).
\<close>

datatype json = JUndefined | JNull | JBool bool | JNum int | JStr string | JObject

fun truthy :: "json \<Rightarrow> bool" where
  "truthy JUndefined = False"
| "truthy JNull = False"
| "truthy (JBool b) = b"
| "truthy (JNum n) = (n \<noteq> 0)"
| "truthy (JStr s) = (s \<noteq> [])"
| "truthy JObject = True"

definition randomTreatment :: bool where
  "randomTreatment = True"

definition treatmentFallback :: int where
  "treatmentFallback = 1"

text \<open>\<open>assignGroup\<close>; the argument says whether \<^verbatim>\<open>Math.random() < 0.5\<close> came out true.\<close>

definition assignGroup :: "bool \<Rightarrow> int" where
  "assignGroup randomBelowHalf =
     (if randomTreatment then (if randomBelowHalf then 0 else 1) else treatmentFallback)"

record submit_body =
  participantId :: json
  treatmentGroup :: json
  conversationLog :: json
  responseData :: "(string \<times> json) list"

record survey_row =
  participant_id :: json
  treatment_group :: json
  response_data :: "(string \<times> json) list"
  conversation_log :: json

text \<open>
  The handler of \<^verbatim>\<open>POST /submit\<close>. \<open>queryOk\<close> says whether \<^verbatim>\<open>pool.query\<close> succeeds;
  the result is the HTTP status and the table \<^verbatim>\<open>survey_responses\<close> afterwards.
\<close>

definition post_submit :: "submit_body \<Rightarrow> bool \<Rightarrow> survey_row list \<Rightarrow> nat \<times> survey_row list" where
  "post_submit body queryOk db =
     (if \<not> truthy (participantId body) \<or> \<not> truthy (treatmentGroup body)
         \<or> \<not> truthy (conversationLog body)
      then (400, db)
      else if queryOk
      then (200, db @ [\<lparr>participant_id = participantId body,
                        treatment_group = treatmentGroup body,
                        response_data = responseData body,
                        conversation_log = conversationLog body\<rparr>])
      else (500, db))"

subsection \<open>The relay endpoint \<^verbatim>\<open>POST /sendmessage\<close>\<close>

record dedup_entry =
  timestamp :: int
  msgId :: string

record activity =
  act_conversation :: string
  act_text :: string
  act_treatmentGroup :: string

text \<open>
  The server's state: the map \<open>processedMessages\<close> and, as a log, the activities posted to
  the Direct Line API (each \<^verbatim>\<open>axios.post\<close> of the handler, whether it succeeded or not).
\<close>

record server =
  processedMessages :: "string \<rightharpoonup> dedup_entry"
  outbound :: "activity list"

record send_request =
  conversationId :: string
  msgText :: string
  sm_treatmentGroup :: string
  clientSideMsgId :: string

datatype send_response = Duplicate string | Sent string | SendFailed

definition oneHour :: int where
  "oneHour = 60 * 60 * 1000"

definition messageKey :: "send_request \<Rightarrow> string" where
  "messageKey req = conversationId req @ ''::'' @ clientSideMsgId req"

text \<open>
  The handler. \<open>directLine\<close> is the answer of the Direct Line API if the handler posts:
  \<open>Some i\<close> when the post succeeds with \<^verbatim>\<open>response.data.id = i\<close>, \<open>None\<close> when
  \<^verbatim>\<open>axios.post\<close> throws. \<open>now\<close> is \<^verbatim>\<open>Date.now()\<close>.
\<close>

definition post_sendmessage ::
  "send_request \<Rightarrow> string option \<Rightarrow> int \<Rightarrow> server \<Rightarrow> send_response \<times> server" where
  "post_sendmessage req directLine now s =
     (case processedMessages s (messageKey req) of
        Some storedEntry \<Rightarrow> (Duplicate (msgId storedEntry), s)
      | None \<Rightarrow>
          (let posted = s\<lparr>outbound := outbound s @
                 [\<lparr>act_conversation = conversationId req, act_text = msgText req,
                   act_treatmentGroup = sm_treatmentGroup req\<rparr>]\<rparr>
           in case directLine of
                Some i \<Rightarrow>
                  (Sent i, posted\<lparr>processedMessages :=
                     (processedMessages posted)(messageKey req \<mapsto> \<lparr>timestamp = now, msgId = i\<rparr>)\<rparr>)
              | None \<Rightarrow> (SendFailed, posted)))"

text \<open>The hourly sweep of \<^verbatim>\<open>setInterval\<close>: entries older than one hour are deleted.\<close>

definition sweep :: "int \<Rightarrow> server \<Rightarrow> server" where
  "sweep now s =
     s\<lparr>processedMessages := (\<lambda>key.
        case processedMessages s key of
          None \<Rightarrow> None
        | Some v \<Rightarrow> (if now - timestamp v > oneHour then None else Some v))\<rparr>"

text \<open>What happens at the server, in order: requests to the endpoint and runs of the sweep.\<close>

datatype server_event = SendMessage send_request "string option" int | Sweep int

fun server_step :: "server \<Rightarrow> server_event \<Rightarrow> server" where
  "server_step s (SendMessage req directLine now) = snd (post_sendmessage req directLine now s)"
| "server_step s (Sweep now) = sweep now s"

definition server_run :: "server \<Rightarrow> server_event list \<Rightarrow> server" where
  "server_run s evs = foldl server_step s evs"

text \<open>The message id a response carries in its field \<^verbatim>\<open>id\<close>, if it has one.\<close>

fun responseId :: "send_response \<Rightarrow> string option" where
  "responseId (Duplicate i) = Some i"
| "responseId (Sent i) = Some i"
| "responseId SendFailed = None"

definition freshServer :: server where
  "freshServer = \<lparr>processedMessages = Map.empty, outbound = []\<rparr>"

text \<open>An event leaves the entry \<open>e\<close> in the map: every send does, a sweep does while the
  entry is at most one hour old.\<close>

fun keptBy :: "dedup_entry \<Rightarrow> server_event \<Rightarrow> bool" where
  "keptBy e (Sweep now) = (now - timestamp e \<le> oneHour)"
| "keptBy e (SendMessage req directLine now) = True"

definition demoRequest :: send_request where
  "demoRequest = \<lparr>conversationId = ''conv'', msgText = ''hi'', sm_treatmentGroup = ''1'',
                   clientSideMsgId = ''m1''\<rparr>"

definition demoBody :: submit_body where
  "demoBody = \<lparr>participantId = JStr ''ID-ABC'', treatmentGroup = JNum (assignGroup True),
                conversationLog = JStr ''log'', responseData = []\<rparr>"

section \<open>The client: navigation state, history shadowing and persistence\<close>

definition totalPages :: int where
  "totalPages = 9"

definition chatbotPage :: int where
  "chatbotPage = 4"

datatype jserror = TypeError | SyntaxError | ServerReturned nat | FetchRejected string

text \<open>
  An item of \<^verbatim>\<open>sessionStorage\<close> that the script writes with \<^verbatim>\<open>JSON.stringify\<close> and reads
  with \<^verbatim>\<open>JSON.parse\<close>, represented by what reading it gives: \<open>Missing\<close> when
  \<^verbatim>\<open>getItem\<close> returns \<^verbatim>\<open>null\<close>, \<open>EmptyText\<close> for the empty string, \<open>Json v\<close> for a text that
  \<^verbatim>\<open>JSON.parse\<close> turns into \<open>v\<close>, and \<open>Malformed\<close> for a text on which \<^verbatim>\<open>JSON.parse\<close>
  throws a \<^verbatim>\<open>SyntaxError\<close>. For \<^verbatim>\<open>historyStates\<close> and \<^verbatim>\<open>scrollPositions\<close> the value \<open>v\<close> is of
  the shape the script writes: an array of objects with a field \<^verbatim>\<open>page\<close>, and an object
  from page numbers to offsets. A text that parses to a value of another shape is outside
  this model, and every statement about stored items below is about the four kinds only.
\<close>

datatype 'a item = Missing | EmptyText | Json 'a | Malformed

text \<open>
  What \<^verbatim>\<open>JSON.parse\<close> gives for the item \<^verbatim>\<open>formData\<close>: \<open>FormNull\<close> for the text \<^verbatim>\<open>null\<close>, on
  which reading \<^verbatim>\<open>state.consent\<close> throws a \<^verbatim>\<open>TypeError\<close>; \<open>FormObject consent\<close> for any other
  value, where \<open>consent\<close> says whether its field \<^verbatim>\<open>consent\<close> is truthy. The answers it holds
  are taken to be values of the form's own inputs, as \<open>saveData\<close> writes them.
\<close>

datatype formdata = FormNull | FormObject bool

text \<open>
  The keys of \<^verbatim>\<open>sessionStorage\<close> the navigation code reads or writes. The item
  \<^verbatim>\<open>currentPage\<close> is kept as its text, since \<^verbatim>\<open>parseInt\<close> reads it.
\<close>

record sessionStorage =
  st_currentPage :: "string option"
  st_historyStates :: "jsval list item"
  st_scrollPositions :: "(jsval \<rightharpoonup> int) item"
  st_formData :: "formdata item"
  st_chatbotAlreadyOpened :: "string option"
  st_participantId :: "string option"
  st_treatmentGroup :: "string option"
  st_conversation :: "string option"

text \<open>The calls the script makes on \<^verbatim>\<open>window.history\<close>, each with the page of its state object.\<close>

datatype history_call = PushState jsval | ReplaceState jsval | Back | Forward

text \<open>
  Effects on the document that no later step of the script reads back:
  \<^verbatim>\<open>toggleNotification(action, elementId)\<close>, the smooth scroll to the bottom of the page
  and \<^verbatim>\<open>document.dispatchEvent\<close>.
\<close>

datatype ui_effect = Notification string string | ScrollToBottom | DispatchEvent string

text \<open>
  The script's global variables together with the parts of the browser it reads and
  writes. \<open>historyStates\<close> holds the field \<^verbatim>\<open>page\<close> of each entry. \<open>activePage\<close> is the page
  whose element carries the class \<^verbatim>\<open>active\<close>; \<open>pendingScroll\<close> is the scroll restoration
  queued through \<^verbatim>\<open>scrollFrame1Id\<close>/\<^verbatim>\<open>scrollFrame2Id\<close> (its target offset);
  \<open>popstateListener\<close> says whether \<open>handlePopState\<close> is registered, \<open>beforeunloadListener\<close>
  whether the handler that saves the scroll position on unload is; \<open>historyCalls\<close> and
  \<open>uiLog\<close> are traces. Scroll offsets are integers.
\<close>

record session =
  currentPage :: jsval
  historyStates :: "jsval list"
  scrollPositions :: "jsval \<rightharpoonup> int"
  bypassPopState :: bool
  chatbotAlreadyOpened :: bool
  storage :: sessionStorage
  consentChecked :: bool
  activePage :: "jsval option"
  chatbotVisible :: bool
  pendingScroll :: "int option"
  windowScrollY :: int
  popstateListener :: bool
  beforeunloadListener :: bool
  historyCalls :: "history_call list"
  uiLog :: "ui_effect list"

text \<open>
  A function of the script either returns or throws; the globals it has changed before
  a throw stay changed, so both outcomes carry the state.
\<close>

type_synonym result = "(jserror \<times> session) + session"

fun final :: "result \<Rightarrow> session" where
  "final (Inl (e, s)) = s"
| "final (Inr s) = s"

fun andThen :: "result \<Rightarrow> (session \<Rightarrow> result) \<Rightarrow> result" where
  "andThen (Inl x) f = Inl x"
| "andThen (Inr s) f = f s"

subsection \<open>Page display\<close>

text \<open>
  The HTML document is not part of the sources. It is taken to hold one element
  \<^verbatim>\<open>page<k>\<close> for each \<open>k\<close> from 1 to \<open>totalPages - 1\<close>, the element \<^verbatim>\<open>thankyou\<close> for the
  final page, and the elements of the chatbot view and the consent checkbox. For any
  other page number \<^verbatim>\<open>document.getElementById\<close> returns \<^verbatim>\<open>null\<close> and \<open>showPage\<close> throws a
  \<^verbatim>\<open>TypeError\<close>.
\<close>

fun pageElementExists :: "jsval \<Rightarrow> bool" where
  "pageElementExists (Num n) = (1 \<le> n \<and> n < totalPages)"
| "pageElementExists _ = False"

definition cancelScrollDelays :: "session \<Rightarrow> session" where
  "cancelScrollDelays s = s\<lparr>pendingScroll := None\<rparr>"

definition applyChatbotViewState :: "session \<Rightarrow> session" where
  "applyChatbotViewState s =
     (if strictEq (currentPage s) (Num chatbotPage)
      then s\<lparr>chatbotVisible := True,
             uiLog := uiLog s @ [DispatchEvent ''chatbotInterfaceOpened'']\<rparr>
      else s\<lparr>chatbotVisible := False\<rparr>)"

definition trackChatbotArrival :: "session \<Rightarrow> session" where
  "trackChatbotArrival s =
     (if chatbotAlreadyOpened s = False
      then s\<lparr>chatbotAlreadyOpened := True,
             storage := (storage s)\<lparr>st_chatbotAlreadyOpened := Some ''true''\<rparr>,
             uiLog := uiLog s @ [DispatchEvent ''userArrivedAtChatbot'']\<rparr>
      else s)"

text \<open>\<open>showPage\<close>. The width of the progress bar (\<open>updateProgressBar\<close>) is not modelled.\<close>

definition showPage :: "jsval \<Rightarrow> session \<Rightarrow> result" where
  "showPage pageNumber s =
     (let s1 = (cancelScrollDelays s)\<lparr>activePage := None\<rparr> in
      if \<not> strictEq pageNumber (Num totalPages) \<and> \<not> pageElementExists pageNumber
      then Inl (TypeError, s1)
      else
        let s2 = s1\<lparr>activePage := Some pageNumber\<rparr>;
            s3 = (if js_ge pageNumber (Num (chatbotPage - 1)) \<and> js_le pageNumber (Num (chatbotPage + 1))
                  then applyChatbotViewState s2 else s2);
            s4 = (if strictEq pageNumber (Num chatbotPage) then trackChatbotArrival s3 else s3)
        in Inr (if \<not> strictEq pageNumber (Num chatbotPage)
                then (case scrollPositions s4 pageNumber of
                        Some scrollPos \<Rightarrow> s4\<lparr>pendingScroll := Some scrollPos\<rparr>
                      | None \<Rightarrow> s4\<lparr>windowScrollY := 0\<rparr>)
                else s4))"

subsection \<open>State management\<close>

text \<open>What \<^verbatim>\<open>JSON.stringify\<close> followed by \<^verbatim>\<open>JSON.parse\<close> makes of a number: \<^verbatim>\<open>NaN\<close> becomes \<^verbatim>\<open>null\<close>.\<close>

fun jsonNumber :: "jsval \<Rightarrow> jsval" where
  "jsonNumber NaN = Null"
| "jsonNumber v = v"

definition saveNavigationState :: "session \<Rightarrow> session" where
  "saveNavigationState s =
     s\<lparr>storage := (storage s)\<lparr>st_currentPage := Some (js_toString (currentPage s)),
                               st_historyStates := Json (map jsonNumber (historyStates s))\<rparr>\<rparr>"

definition saveScrollPositions :: "jsval \<Rightarrow> session \<Rightarrow> session" where
  "saveScrollPositions pageNumber s =
     (if \<not> strictEq (currentPage s) (Num chatbotPage)
      then s\<lparr>scrollPositions := (scrollPositions s)(pageNumber \<mapsto> windowScrollY s),
             storage := (storage s)\<lparr>st_scrollPositions :=
                          Json ((scrollPositions s)(pageNumber \<mapsto> windowScrollY s))\<rparr>\<rparr>
      else s)"

text \<open>
  \<open>restoreState\<close>, in the order of the source: a \<^verbatim>\<open>SyntaxError\<close> of \<^verbatim>\<open>JSON.parse\<close> leaves
  what was restored before it, and so does the \<^verbatim>\<open>TypeError\<close> of reading \<^verbatim>\<open>state.consent\<close>
  when the saved form data is \<^verbatim>\<open>null\<close>. The restoring of the radio buttons and text fields
  from \<^verbatim>\<open>formData\<close> and the two view updates at the end are not modelled.
\<close>

definition restoreState :: "session \<Rightarrow> result" where
  "restoreState s =
     (let s1 = (case st_currentPage (storage s) of
                  None \<Rightarrow> s
                | Some savedPage \<Rightarrow>
                    (if savedPage \<noteq> [] then s\<lparr>currentPage := parseInt savedPage\<rparr> else s))
      in case st_historyStates (storage s1) of
           Malformed \<Rightarrow> Inl (SyntaxError, s1)
         | savedHistoryStates \<Rightarrow>
             (let s2 = (case savedHistoryStates of
                          Json h \<Rightarrow> s1\<lparr>historyStates := h\<rparr> | _ \<Rightarrow> s1)
              in case st_scrollPositions (storage s2) of
                   Malformed \<Rightarrow> Inl (SyntaxError, s2)
                 | savedScrollPositions \<Rightarrow>
                     (let s3 = (case savedScrollPositions of
                                  Json m \<Rightarrow> s2\<lparr>scrollPositions := m\<rparr> | _ \<Rightarrow> s2)
                      in case st_formData (storage s3) of
                           Malformed \<Rightarrow> Inl (SyntaxError, s3)
                         | Json FormNull \<Rightarrow> Inl (TypeError, s3)
                         | Json (FormObject consent) \<Rightarrow>
                             Inr (if consent then s3\<lparr>consentChecked := True\<rparr> else s3)
                         | _ \<Rightarrow> Inr s3)))"

definition clearState :: "session \<Rightarrow> session" where
  "clearState s =
     s\<lparr>storage := (storage s)\<lparr>st_participantId := None, st_treatmentGroup := None,
                               st_formData := Missing, st_conversation := None\<rparr>\<rparr>"

subsection \<open>Navigation and history management\<close>

text \<open>
  \<open>consentCheckboxLogic\<close>: the user has set the checkbox to \<open>checked\<close>; \<open>saveData\<close> stores
  the form data.
\<close>

definition consentCheckboxLogic :: "bool \<Rightarrow> session \<Rightarrow> session" where
  "consentCheckboxLogic checked s =
     s\<lparr>consentChecked := checked,
       storage := (storage s)\<lparr>st_formData := Json (FormObject checked)\<rparr>\<rparr>"

definition pushPageToHistory :: "jsval \<Rightarrow> session \<Rightarrow> session" where
  "pushPageToHistory page s =
     saveNavigationState
       (s\<lparr>historyStates := historyStates s @ [page],
          historyCalls := historyCalls s @ [PushState page]\<rparr>)"

definition initializeHistory :: "jsval \<Rightarrow> session \<Rightarrow> session" where
  "initializeHistory page s =
     saveNavigationState
       ((if \<not> list_ex (\<lambda>p. strictEq p (currentPage s)) (historyStates s)
         then s\<lparr>historyStates := historyStates s @ [page]\<rparr> else s)
        \<lparr>historyCalls := historyCalls s @ [ReplaceState page]\<rparr>)"

text \<open>The second half of \<open>nextButtonLogic\<close> and of \<open>moveToFinalPage\<close>, the same text in both.\<close>

definition syncHistoryForward :: "session \<Rightarrow> session" where
  "syncHistoryForward s =
     (if \<not> list_ex (\<lambda>p. strictEq p (currentPage s)) (historyStates s)
      then pushPageToHistory (currentPage s) s
      else s\<lparr>bypassPopState := True, historyCalls := historyCalls s @ [Forward]\<rparr>)"

definition nextButtonLogic :: "session \<Rightarrow> result" where
  "nextButtonLogic s =
     andThen
       (if js_lt (currentPage s) (Num totalPages)
        then (let s1 = saveScrollPositions (currentPage s) s;
                  s2 = s1\<lparr>currentPage := js_inc (currentPage s1)\<rparr>
              in andThen (showPage (currentPage s2) s2) (\<lambda>s3. Inr (saveNavigationState s3)))
        else Inr s)
       (\<lambda>s4. Inr (syncHistoryForward s4))"

definition backButtonLogic :: "session \<Rightarrow> result" where
  "backButtonLogic s =
     (if js_gt (currentPage s) (Num 1) \<and> js_lt (currentPage s) (Num totalPages)
      then (let s1 = saveScrollPositions (currentPage s) s;
                s2 = s1\<lparr>currentPage := js_dec (currentPage s1)\<rparr>
            in andThen (showPage (currentPage s2) s2)
                 (\<lambda>s3. Inr ((saveNavigationState s3)
                      \<lparr>bypassPopState := True,
                       historyCalls := historyCalls s3 @ [Back]\<rparr>)))
      else Inr s)"

definition moveToFinalPage :: "session \<Rightarrow> result" where
  "moveToFinalPage s =
     andThen
       (if js_lt (currentPage s) (Num totalPages)
        then (let s1 = saveScrollPositions (currentPage s) s;
                  s2 = s1\<lparr>currentPage := Num totalPages\<rparr>
              in andThen (showPage (currentPage s2) s2) (\<lambda>s3. Inr (saveNavigationState s3)))
        else Inr s)
       (\<lambda>s4. Inr (syncHistoryForward s4))"

text \<open>
  \<open>handlePopState\<close>. The argument is \<^verbatim>\<open>event.state\<close>: \<open>None\<close> for \<^verbatim>\<open>null\<close>, \<open>Some p\<close> for a
  state object whose field \<^verbatim>\<open>page\<close> is \<open>p\<close>. Reading \<^verbatim>\<open>event.state.page\<close> of a \<^verbatim>\<open>null\<close> state
  throws; in (b) the read happens only when \<^verbatim>\<open>currentPage === 1\<close>.
\<close>

definition handlePopState :: "jsval option \<Rightarrow> session \<Rightarrow> result" where
  "handlePopState eventState s =
     (if bypassPopState s then Inr (s\<lparr>bypassPopState := False\<rparr>)
      else if strictEq (currentPage s) (Num 1) \<and> eventState = None then Inl (TypeError, s)
      else if strictEq (currentPage s) (Num 1) \<and> eventState = Some (Num 2) \<and> \<not> consentChecked s
      then Inr (s\<lparr>bypassPopState := True, historyCalls := historyCalls s @ [Back]\<rparr>)
      else if strictEq (currentPage s) (Num totalPages)
      then Inr (s\<lparr>popstateListener := False, historyCalls := historyCalls s @ [Back]\<rparr>)
      else (case eventState of
              None \<Rightarrow> Inl (TypeError, s)
            | Some page \<Rightarrow>
                (let s1 = saveScrollPositions (currentPage s) s;
                     s2 = s1\<lparr>currentPage := (if js_lt page (currentPage s)
                                              then js_dec (currentPage s1)
                                              else js_inc (currentPage s1))\<rparr>
                 in andThen (showPage (currentPage s2) s2)
                      (\<lambda>s3. Inr (saveNavigationState s3)))))"

text \<open>
  The browser delivers a \<^verbatim>\<open>popstate\<close> event: the handler runs if it is still registered.
  An exception of the handler ends the handler only.
\<close>

definition dispatchPopState :: "session \<Rightarrow> jsval option \<Rightarrow> session" where
  "dispatchPopState s eventState =
     (if popstateListener s then final (handlePopState eventState s) else s)"

subsection \<open>Initialization\<close>

text \<open>
  The state in which the script starts on a page load: the initial values of the globals,
  \<open>chatbotAlreadyOpened\<close> read from the storage, an unchecked consent box, no page shown, no
  listener. The storage and the trace of history calls are those of the tab.
\<close>

definition loadGlobals :: "sessionStorage \<Rightarrow> history_call list \<Rightarrow> session" where
  "loadGlobals st calls =
     \<lparr>currentPage = Num 1, historyStates = [], scrollPositions = Map.empty,
      bypassPopState = False,
      chatbotAlreadyOpened = (st_chatbotAlreadyOpened st = Some ''true''),
      storage = st, consentChecked = False, activePage = None, chatbotVisible = False,
      pendingScroll = None, windowScrollY = 0, popstateListener = False,
      beforeunloadListener = False, historyCalls = calls, uiLog = []\<rparr>"

definition emptyStorage :: sessionStorage where
  "emptyStorage =
     \<lparr>st_currentPage = None, st_historyStates = Missing, st_scrollPositions = Missing,
      st_formData = Missing, st_chatbotAlreadyOpened = None, st_participantId = None,
      st_treatmentGroup = None, st_conversation = None\<rparr>"

definition freshSession :: session where
  "freshSession = loadGlobals emptyStorage []"

definition referenceElements :: "session \<Rightarrow> session" where
  "referenceElements s =
     s\<lparr>storage := (storage s)\<lparr>st_chatbotAlreadyOpened :=
          Some (if chatbotAlreadyOpened s then ''true'' else ''false'')\<rparr>\<rparr>"

text \<open>\<open>attachEventListeners\<close>, as far as the listeners belong to the window.\<close>

definition attachEventListeners :: "session \<Rightarrow> session" where
  "attachEventListeners s = s\<lparr>popstateListener := True, beforeunloadListener := True\<rparr>"

text \<open>
  \<open>initializePage\<close>. \<open>metadata\<close> is what \<open>getMetadata\<close> ends with: \<open>None\<close> when its request
  fails (the rejected promise ends \<open>initializePage\<close> there), otherwise the participant id
  and the treatment group it stores. The shuffling of the questions is not modelled.
\<close>

definition initializePage :: "(string \<times> string) option \<Rightarrow> session \<Rightarrow> result" where
  "initializePage metadata s =
     (let s1 = referenceElements s in
      case metadata of
        None \<Rightarrow> Inl (FetchRejected ''/generateSurveyData'', s1)
      | Some (pid, grp) \<Rightarrow>
          (let s2 = s1\<lparr>storage := (storage s1)\<lparr>st_participantId := Some pid,
                                                st_treatmentGroup := Some grp\<rparr>\<rparr>
           in andThen (restoreState s2)
                (\<lambda>s3. andThen (showPage (currentPage s3) (initializeHistory (currentPage s3) s3))
                   (\<lambda>s4. Inr ((attachEventListeners s4)
                      \<lparr>uiLog := uiLog s4 @ [DispatchEvent ''surveyDataInitialized'']\<rparr>)))))"

text \<open>
  A reload of the tab: the \<^verbatim>\<open>beforeunload\<close> listener, if attached, saves the scroll
  position; then the script starts again on the storage and history of the tab.
\<close>

definition reloadPage :: "(string \<times> string) option \<Rightarrow> session \<Rightarrow> session" where
  "reloadPage metadata s =
     final (initializePage metadata
              (loadGlobals
                 (storage (if beforeunloadListener s
                           then saveScrollPositions (currentPage s) s else s))
                 (historyCalls s)))"

subsection \<open>Submission with bounded retry\<close>

text \<open>
  What one \<^verbatim>\<open>fetch\<close> gives: the promise is rejected (with a message), or a response with an
  HTTP status arrives. \<^verbatim>\<open>response.ok\<close> holds for the statuses 200 to 299.
\<close>

datatype fetch_outcome = Rejected string | Response nat

definition response_ok :: "nat \<Rightarrow> bool" where
  "response_ok status = (200 \<le> status \<and> status \<le> 299)"

record survey_data =
  d_participantId :: "string option"
  d_treatmentGroup :: "string option"
  d_conversationLog :: string

text \<open>What \<open>submitData\<close> does to the outside: requests and waits (in milliseconds).\<close>

datatype net_effect = Fetch survey_data | Delay nat

text \<open>\<open>collectData\<close>, without the answers read from the form.\<close>

definition collectData :: "session \<Rightarrow> survey_data" where
  "collectData s =
     \<lparr>d_participantId = st_participantId (storage s),
      d_treatmentGroup = st_treatmentGroup (storage s),
      d_conversationLog = (case st_conversation (storage s) of
                             None \<Rightarrow> [] | Some c \<Rightarrow> c)\<rparr>"

text \<open>The error an attempt ends with in the \<^verbatim>\<open>catch\<close> block, if it fails.\<close>

fun attemptError :: "fetch_outcome \<Rightarrow> jserror option" where
  "attemptError (Rejected msg) = Some (FetchRejected msg)"
| "attemptError (Response status) =
     (if response_ok status then None else Some (ServerReturned status))"

text \<open>
  The loop of \<open>submitData\<close>, from the counter \<open>i\<close> on. \<open>fetch i\<close> is the outcome of the
  request of iteration \<open>i\<close>. The result is the response's status, or the thrown
  \<open>lastError\<close> (\<open>None\<close> for \<^verbatim>\<open>null\<close>), and the trace of effects.
\<close>

function submitData_loop ::
  "survey_data \<Rightarrow> (int \<Rightarrow> fetch_outcome) \<Rightarrow> int \<Rightarrow> int \<Rightarrow> jserror option \<Rightarrow> net_effect list
     \<Rightarrow> (jserror option + nat) \<times> net_effect list" where
  "submitData_loop data fetch retries i lastError trace =
     (if i < retries
      then (case fetch i of
              Response status \<Rightarrow>
                (if response_ok status then (Inr status, trace @ [Fetch data])
                 else submitData_loop data fetch retries (i + 1)
                        (Some (ServerReturned status)) (trace @ [Fetch data, Delay 500]))
            | Rejected msg \<Rightarrow>
                submitData_loop data fetch retries (i + 1)
                  (Some (FetchRejected msg)) (trace @ [Fetch data, Delay 500]))
      else (Inl lastError, trace))"
  by pat_completeness auto
termination
  by (relation "measure (\<lambda>(data, fetch, retries, i, lastError, trace). nat (retries - i))") auto

declare submitData_loop.simps [simp del]

definition submitData ::
  "survey_data \<Rightarrow> (int \<Rightarrow> fetch_outcome) \<Rightarrow> int \<Rightarrow> (jserror option + nat) \<times> net_effect list" where
  "submitData data fetch retries = submitData_loop data fetch retries 0 None []"

definition submitFailed :: "session \<Rightarrow> session" where
  "submitFailed s =
     s\<lparr>uiLog := uiLog s @ [Notification ''hide'' ''submit-data-notification'',
                            Notification ''show'' ''submit-error-message'', ScrollToBottom]\<rparr>"

text \<open>
  \<open>submitButtonLogic\<close>, run without interleaving: \<open>submitFailed\<close> is its \<^verbatim>\<open>catch\<close> block,
  which also catches an exception of \<open>moveToFinalPage\<close>.
\<close>

definition submitButtonLogic :: "(int \<Rightarrow> fetch_outcome) \<Rightarrow> session \<Rightarrow> session \<times> net_effect list" where
  "submitButtonLogic fetch s =
     (let s1 = s\<lparr>uiLog := uiLog s @ [Notification ''hide'' ''submit-error-message'',
                                      Notification ''show'' ''submit-data-notification'',
                                      ScrollToBottom]\<rparr>;
          sent = submitData (collectData s1) fetch 4
      in case fst sent of
           Inr response \<Rightarrow>
             (case moveToFinalPage
                     (s1\<lparr>uiLog := uiLog s1 @ [Notification ''hide'' ''submit-data-notification'']\<rparr>) of
                Inr s2 \<Rightarrow> (clearState s2, snd sent)
              | Inl (error, s2) \<Rightarrow> (submitFailed s2, snd sent))
         | Inl error \<Rightarrow> (submitFailed s1, snd sent))"

subsection \<open>The states a session can reach\<close>

text \<open>
  A session starts with a load on an empty storage. Then the user clicks buttons, toggles
  the consent box, scrolls, uses the browser's back and forward controls (a \<^verbatim>\<open>popstate\<close>
  event with any state) and reloads; the chat widget stores the conversation. Nothing
  restricts the order here, so every state the real page reaches is among these.
\<close>

inductive reachable :: "session \<Rightarrow> bool" where
  load: "reachable (final (initializePage metadata freshSession))"
| nextButton: "reachable s \<Longrightarrow> reachable (final (nextButtonLogic s))"
| backButton: "reachable s \<Longrightarrow> reachable (final (backButtonLogic s))"
| submitButton: "reachable s \<Longrightarrow> reachable (fst (submitButtonLogic fetch s))"
| popstate: "reachable s \<Longrightarrow> reachable (dispatchPopState s eventState)"
| consent: "reachable s \<Longrightarrow> reachable (consentCheckboxLogic checked s)"
| scroll: "reachable s \<Longrightarrow> reachable (s\<lparr>windowScrollY := y\<rparr>)"
| chat: "reachable s \<Longrightarrow> reachable (s\<lparr>storage := (storage s)\<lparr>st_conversation := c\<rparr>\<rparr>)"
| reload: "reachable s \<Longrightarrow> reachable (reloadPage metadata s)"

subsection \<open>What the history shadow keeps\<close>

fun isNum :: "jsval \<Rightarrow> bool" where
  "isNum (Num n) = True"
| "isNum _ = False"

text \<open>
  The part of the storage the next load starts from: a stored history has no page twice
  and only numbers, and a stored current page reads back as a number.
\<close>

definition storageInvariant :: "sessionStorage \<Rightarrow> bool" where
  "storageInvariant st =
     ((case st_historyStates st of Json h \<Rightarrow> distinct h \<and> list_all isNum h | _ \<Rightarrow> True) \<and>
      (case st_currentPage st of
         None \<Rightarrow> True | Some savedPage \<Rightarrow> savedPage = [] \<or> isNum (parseInt savedPage)))"

text \<open>
  The invariant of the navigation state: no page is twice in \<open>historyStates\<close>, the pages
  and the current page are numbers, and the storage is as above.
\<close>

definition navInvariant :: "session \<Rightarrow> bool" where
  "navInvariant s =
     (distinct (historyStates s) \<and> list_all isNum (historyStates s) \<and> isNum (currentPage s) \<and>
      (case st_historyStates (storage s) of
         Json h \<Rightarrow> distinct h \<and> list_all isNum h | _ \<Rightarrow> True) \<and>
      (case st_currentPage (storage s) of
         None \<Rightarrow> True | Some savedPage \<Rightarrow> savedPage = [] \<or> isNum (parseInt savedPage)))"

subsection \<open>Traces of the retry loop\<close>

text \<open>The trace of \<open>k\<close> failed attempts: each a request followed by the wait of 500 ms.\<close>

definition attemptTrace :: "survey_data \<Rightarrow> nat \<Rightarrow> net_effect list" where
  "attemptTrace data k = concat (replicate k [Fetch data, Delay 500])"

fun isFetch :: "net_effect \<Rightarrow> bool" where
  "isFetch (Fetch data) = True"
| "isFetch (Delay ms) = False"

subsection \<open>What a load restores\<close>


text \<open>
  The current page after \<open>restoreState\<close>: what \<^verbatim>\<open>parseInt\<close> reads from a saved text that is
  not empty, and the page before otherwise.
\<close>

definition savedPageOr :: "jsval \<Rightarrow> sessionStorage \<Rightarrow> jsval" where
  "savedPageOr dflt st =
     (case st_currentPage st of
        None \<Rightarrow> dflt
      | Some savedPage \<Rightarrow> (if savedPage \<noteq> [] then parseInt savedPage else dflt))"





subsection \<open>Concrete sessions\<close>

definition demoMeta :: "(string \<times> string) option" where
  "demoMeta = Some (''ID-ABC'', ''1'')"

text \<open>A first load of the page, and the same session after a successful submission.\<close>

definition demoLoaded :: session where
  "demoLoaded = final (initializePage demoMeta freshSession)"

definition demoFinal :: session where
  "demoFinal = final (moveToFinalPage demoLoaded)"

text \<open>The user has consented and gone on to page 2, and from there on to page 5.\<close>

definition demoPage2 :: session where
  "demoPage2 = final (nextButtonLogic (consentCheckboxLogic True demoLoaded))"

definition demoPage5 :: session where
  "demoPage5 = final (nextButtonLogic (final (nextButtonLogic (final (nextButtonLogic demoPage2)))))"

text \<open>
  The user has gone on to the chatbot page, and has then left it and come back with the
  browser's back and forward controls.
\<close>

definition demoPage4 :: session where
  "demoPage4 = final (nextButtonLogic (final (nextButtonLogic demoPage2)))"

definition demoRevisit4 :: session where
  "demoRevisit4 = dispatchPopState (dispatchPopState demoPage4 (Some (Num 3))) (Some (Num 4))"

text \<open>On page 2 the user has clicked the back button; the \<^verbatim>\<open>popstate\<close> event of the
  script's own \<^verbatim>\<open>history.back()\<close> has not arrived yet.\<close>

definition demoBack :: session where
  "demoBack = final (backButtonLogic demoPage2)"

text \<open>
  The user has consented, visited pages 2 and 3, gone back to page 1 with the browser's
  back control (two \<^verbatim>\<open>popstate\<close> events) and has then unchecked the consent box.
\<close>

definition demoRevoked :: session where
  "demoRevoked =
     consentCheckboxLogic False
       (dispatchPopState
          (dispatchPopState
             (final (nextButtonLogic (final (nextButtonLogic (consentCheckboxLogic True demoLoaded)))))
             (Some (Num 2)))
          (Some (Num 1)))"


section \<open>Properties of the server\<close>

subsection \<open>Submission guard\<close>

text \<open>
  Claim C10. A \<^verbatim>\<open>POST /submit\<close> whose body has \<open>treatmentGroup\<close> equal to the number 0 (a
  value \<open>assignGroup\<close> hands out) is answered with status 400 and inserts nothing; so is
  one with an empty \<open>conversationLog\<close>, and any one in which \<open>participantId\<close>,
  \<open>treatmentGroup\<close> or \<open>conversationLog\<close> is falsy.
\<close>

theorem post_submit_rejects_group_zero:
  "(treatmentGroup body = JNum 0 \<longrightarrow> post_submit body queryOk db = (400, db)) \<and>
   (conversationLog body = JStr [] \<longrightarrow> post_submit body queryOk db = (400, db)) \<and>
   (\<not> truthy (participantId body) \<or> \<not> truthy (treatmentGroup body)
       \<or> \<not> truthy (conversationLog body)
      \<longrightarrow> post_submit body queryOk db = (400, db)) \<and>
   JNum (assignGroup True) = JNum 0"
  by (simp add: post_submit_def assignGroup_def randomTreatment_def)

theorem post_submit_rejects_group_zero_witness:
  "treatmentGroup demoBody = JNum 0 \<and> truthy (participantId demoBody) \<and>
   truthy (conversationLog demoBody) \<and> post_submit demoBody True [] = (400, [])"
  using post_submit_rejects_group_zero [of demoBody True "[]"]
  by (simp add: demoBody_def assignGroup_def randomTreatment_def)

text \<open>With three truthy fields the row is inserted, if the query succeeds.\<close>

lemma post_submit_accepts:
  "truthy (participantId body) \<Longrightarrow> truthy (treatmentGroup body) \<Longrightarrow> truthy (conversationLog body) \<Longrightarrow>
   fst (post_submit body True db) = 200 \<and> length (snd (post_submit body True db)) = Suc (length db)"
  by (simp add: post_submit_def)

subsection \<open>Deduplication of sent messages\<close>

lemma post_sendmessage_keeps_entry:
  "processedMessages s k = Some e \<Longrightarrow>
   processedMessages (snd (post_sendmessage req directLine now s)) k = Some e"
  by (auto simp: post_sendmessage_def Let_def split: option.splits)

lemma sweep_keeps_entry:
  "processedMessages s k = Some e \<Longrightarrow> now - timestamp e \<le> oneHour \<Longrightarrow>
   processedMessages (sweep now s) k = Some e"
  by (simp add: sweep_def)

lemma server_run_keeps_entry:
  "processedMessages s k = Some e \<Longrightarrow> list_all (keptBy e) evs \<Longrightarrow>
   processedMessages (server_run s evs) k = Some e"
  unfolding server_run_def
proof (induction evs arbitrary: s)
  case Nil
  then show ?case by simp
next
  case (Cons ev evs)
  have "processedMessages (server_step s ev) k = Some e"
  proof (cases ev)
    case (SendMessage req directLine now)
    then show ?thesis using Cons.prems(1) by (simp add: post_sendmessage_keeps_entry)
  next
    case (Sweep now)
    then show ?thesis using Cons.prems by (simp add: sweep_keeps_entry)
  qed
  then show ?case using Cons.IH Cons.prems(2) by simp
qed

lemma post_sendmessage_duplicate:
  "processedMessages s (messageKey req) = Some e \<Longrightarrow>
   post_sendmessage req directLine now s = (Duplicate (msgId e), s)"
  by (simp add: post_sendmessage_def)

lemma post_sendmessage_first:
  "processedMessages s (messageKey req) = None \<Longrightarrow>
   fst (post_sendmessage req (Some i) t s) = Sent i \<and>
   processedMessages (snd (post_sendmessage req (Some i) t s)) (messageKey req)
     = Some \<lparr>timestamp = t, msgId = i\<rparr> \<and>
   length (outbound (snd (post_sendmessage req (Some i) t s))) = Suc (length (outbound s))"
  by (simp add: post_sendmessage_def Let_def)

lemma post_sendmessage_failed:
  "processedMessages s (messageKey req) = None \<Longrightarrow>
   fst (post_sendmessage req None t s) = SendFailed \<and>
   processedMessages (snd (post_sendmessage req None t s)) = processedMessages s \<and>
   length (outbound (snd (post_sendmessage req None t s))) = Suc (length (outbound s))"
  by (simp add: post_sendmessage_def Let_def)

text \<open>
  Claim C2, as stated, fails: the send of key \<open>(conv, m1)\<close> at time 0 succeeds with id
  \<open>A\<close> and records its entry; the sweep two hours later deletes the entry; the next send
  with the same key posts to the Direct Line API again (the second outbound post) and
  returns the new id \<open>B\<close>.
\<close>

theorem sendmessage_after_sweep_counterexample:
  "fst (post_sendmessage demoRequest (Some ''A'') 0 freshServer) = Sent ''A'' \<and>
   fst (post_sendmessage demoRequest (Some ''B'') 7200001
          (sweep 7200000 (snd (post_sendmessage demoRequest (Some ''A'') 0 freshServer))))
     = Sent ''B'' \<and>
   length (outbound (snd (post_sendmessage demoRequest (Some ''B'') 7200001
          (sweep 7200000 (snd (post_sendmessage demoRequest (Some ''A'') 0 freshServer)))))) = 2"
  by (simp add: post_sendmessage_def sweep_def freshServer_def demoRequest_def messageKey_def
      oneHour_def Let_def)

text \<open>
  Claim C2, amended. Let a send with key \<open>(conversationId, clientSideMsgId)\<close> succeed at
  time \<open>t\<close> with id \<open>i\<close> on a map without that key. Then, after any later events in which
  every sweep runs while the entry is at most one hour old, a send with the same key
  returns the stored id \<open>i\<close> and leaves the server's state as it is: no entry changes and
  nothing is posted. In particular two sends in sequence give the same id and make one
  outbound post. A failed send leaves the map as it was, so a retry with the same key
  posts again, and succeeds if the Direct Line API does.
\<close>

theorem sendmessage_dedup_until_swept:
  assumes fresh: "processedMessages s (messageKey req) = None"
    and kept: "list_all (keptBy \<lparr>timestamp = t, msgId = i\<rparr>) evs"
    and same: "conversationId req' = conversationId req" "clientSideMsgId req' = clientSideMsgId req"
  shows "fst (post_sendmessage req (Some i) t s) = Sent i \<and>
         post_sendmessage req' directLine' t'
             (server_run (snd (post_sendmessage req (Some i) t s)) evs)
           = (Duplicate i, server_run (snd (post_sendmessage req (Some i) t s)) evs) \<and>
         responseId (fst (post_sendmessage req' directLine' t' (snd (post_sendmessage req (Some i) t s))))
           = responseId (fst (post_sendmessage req (Some i) t s)) \<and>
         length (outbound (snd (post_sendmessage req' directLine' t'
                                  (snd (post_sendmessage req (Some i) t s)))))
           = Suc (length (outbound s)) \<and>
         processedMessages (snd (post_sendmessage req None t s)) = processedMessages s \<and>
         fst (post_sendmessage req' (Some j) t' (snd (post_sendmessage req None t s))) = Sent j \<and>
         length (outbound (snd (post_sendmessage req' (Some j) t' (snd (post_sendmessage req None t s)))))
           = Suc (Suc (length (outbound s)))"
proof -
  let ?s1 = "snd (post_sendmessage req (Some i) t s)"
  let ?sF = "snd (post_sendmessage req None t s)"
  have key: "messageKey req' = messageKey req"
    using same by (simp add: messageKey_def)
  have first: "fst (post_sendmessage req (Some i) t s) = Sent i"
    and entry: "processedMessages ?s1 (messageKey req') = Some \<lparr>timestamp = t, msgId = i\<rparr>"
    and out1: "length (outbound ?s1) = Suc (length (outbound s))"
    using post_sendmessage_first [OF fresh] key by simp_all
  have later: "processedMessages (server_run ?s1 evs) (messageKey req')
                 = Some \<lparr>timestamp = t, msgId = i\<rparr>"
    using server_run_keeps_entry [OF entry kept] .
  have dup: "post_sendmessage req' directLine' t' (server_run ?s1 evs)
               = (Duplicate i, server_run ?s1 evs)"
    using post_sendmessage_duplicate [OF later] by simp
  have dup0: "post_sendmessage req' directLine' t' ?s1 = (Duplicate i, ?s1)"
    using post_sendmessage_duplicate [OF entry] by simp
  have failed: "processedMessages ?sF = processedMessages s"
    and outF: "length (outbound ?sF) = Suc (length (outbound s))"
    using post_sendmessage_failed [OF fresh] by simp_all
  have freshF: "processedMessages ?sF (messageKey req') = None"
    using failed fresh key by simp
  have retry: "fst (post_sendmessage req' (Some j) t' ?sF) = Sent j"
    and outR: "length (outbound (snd (post_sendmessage req' (Some j) t' ?sF)))
                 = Suc (length (outbound ?sF))"
    using post_sendmessage_first [OF freshF] by simp_all
  show ?thesis
    using first dup dup0 out1 failed retry outR outF by simp
qed

theorem sendmessage_dedup_until_swept_witness:
  "processedMessages freshServer (messageKey demoRequest) = None \<and>
   list_all (keptBy \<lparr>timestamp = 0, msgId = ''A''\<rparr>)
     [Sweep 3600000, SendMessage (demoRequest\<lparr>clientSideMsgId := ''m2''\<rparr>) (Some ''C'') 3600001] \<and>
   fst (post_sendmessage demoRequest (Some ''A'') 0 freshServer) = Sent ''A'' \<and>
   fst (post_sendmessage demoRequest (Some ''B'') 3600002
          (server_run (snd (post_sendmessage demoRequest (Some ''A'') 0 freshServer))
             [Sweep 3600000, SendMessage (demoRequest\<lparr>clientSideMsgId := ''m2''\<rparr>) (Some ''C'') 3600001]))
     = Duplicate ''A''"
  using sendmessage_dedup_until_swept [of freshServer demoRequest 0 "''A''"
      "[Sweep 3600000, SendMessage (demoRequest\<lparr>clientSideMsgId := ''m2''\<rparr>) (Some ''C'') 3600001]"
      demoRequest "Some ''B''" 3600002 "''B''"]
  by (simp add: freshServer_def oneHour_def)

section \<open>Numbers as text\<close>

lemma digitChar_props:
  assumes "d < 10"
  shows "digitVal (digitChar d) = d" and "isDigit (digitChar d)"
    and "\<not> isWhiteSpace (digitChar d)" and "digitChar d \<noteq> CHR ''-''" and "digitChar d \<noteq> CHR ''+''"
proof -
  from assms have "d \<in> {0, 1, 2, 3, 4, 5, 6, 7, 8, 9}" by auto
  then show "digitVal (digitChar d) = d" and "isDigit (digitChar d)"
    and "\<not> isWhiteSpace (digitChar d)" and "digitChar d \<noteq> CHR ''-''" and "digitChar d \<noteq> CHR ''+''"
    by (auto simp: digitVal_def digitChar_def isDigit_def isWhiteSpace_def)
qed

lemma digitsValue_snoc: "digitsValue (ds @ [c]) = 10 * digitsValue ds + digitVal c"
  by (simp add: digitsValue_def)

lemma showNat_digits: "showNat n \<noteq> [] \<and> list_all isDigit (showNat n) \<and> digitsValue (showNat n) = n"
proof (induction n rule: showNat.induct)
  case (1 n)
  show ?case
  proof (cases "n < 10")
    case True
    then show ?thesis
      by (simp add: showNat.simps [of n] digitChar_props digitsValue_def)
  next
    case False
    with 1 have IH: "showNat (n div 10) \<noteq> []" "list_all isDigit (showNat (n div 10))"
      "digitsValue (showNat (n div 10)) = n div 10" by simp_all
    have d: "n mod 10 < 10" by simp
    show ?thesis
      using False IH digitChar_props(1,2) [OF d]
      by (simp add: showNat.simps [of n] digitsValue_snoc)
  qed
qed

lemma isDigit_not_sign: "isDigit c \<Longrightarrow> \<not> isWhiteSpace c \<and> c \<noteq> CHR ''-'' \<and> c \<noteq> CHR ''+''"
  by (auto simp: isDigit_def isWhiteSpace_def)

lemma takeWhile_all: "list_all P xs \<Longrightarrow> takeWhile P xs = xs"
  by (induction xs) simp_all

lemma parseInt_digits:
  assumes "ds \<noteq> []" and "list_all isDigit ds"
  shows "parseInt ds = Num (int (digitsValue ds))"
    and "parseInt (CHR ''-'' # ds) = Num (- int (digitsValue ds))"
proof -
  obtain c cs where ds: "ds = c # cs" using assms(1) by (cases ds) auto
  with assms(2) have c: "isDigit c" by simp
  have tw: "takeWhile isDigit ds = ds" using assms(2) by (rule takeWhile_all)
  show "parseInt ds = Num (int (digitsValue ds))"
    using isDigit_not_sign [OF c] assms(1) ds tw by (simp add: parseInt_def Let_def del: takeWhile_eq_all_conv)
  have "\<not> isWhiteSpace CHR ''-''" by (simp add: isWhiteSpace_def)
  then show "parseInt (CHR ''-'' # ds) = Num (- int (digitsValue ds))"
    using assms(1) by (simp add: parseInt_def Let_def tw)
qed

lemma parseInt_toString: "parseInt (js_toString (Num n)) = Num n"
  using parseInt_digits [of "showNat (nat n)"] parseInt_digits [of "showNat (nat (- n))"]
    showNat_digits [of "nat n"] showNat_digits [of "nat (- n)"]
  by (simp add: showInt_def)

lemma showInt_nonempty: "showInt n \<noteq> []"
  using showNat_digits [of "nat n"] by (simp add: showInt_def)

section \<open>What the page display and the savers leave alone\<close>

lemma showPage_frame:
  "currentPage (final (showPage p s)) = currentPage s"
  "historyStates (final (showPage p s)) = historyStates s"
  "scrollPositions (final (showPage p s)) = scrollPositions s"
  "bypassPopState (final (showPage p s)) = bypassPopState s"
  "consentChecked (final (showPage p s)) = consentChecked s"
  "popstateListener (final (showPage p s)) = popstateListener s"
  "beforeunloadListener (final (showPage p s)) = beforeunloadListener s"
  "historyCalls (final (showPage p s)) = historyCalls s"
  "st_currentPage (storage (final (showPage p s))) = st_currentPage (storage s)"
  "st_historyStates (storage (final (showPage p s))) = st_historyStates (storage s)"
  "st_scrollPositions (storage (final (showPage p s))) = st_scrollPositions (storage s)"
  by (simp_all add: showPage_def Let_def cancelScrollDelays_def applyChatbotViewState_def
      trackChatbotArrival_def split: option.split)

lemma showPage_Inr:
  "showPage p s = Inr s' \<Longrightarrow> \<exists>n. p = Num n"
  by (cases p) (simp_all add: showPage_def Let_def totalPages_def)

lemma saveScrollPositions_frame:
  "currentPage (saveScrollPositions p s) = currentPage s"
  "historyStates (saveScrollPositions p s) = historyStates s"
  "bypassPopState (saveScrollPositions p s) = bypassPopState s"
  "consentChecked (saveScrollPositions p s) = consentChecked s"
  "popstateListener (saveScrollPositions p s) = popstateListener s"
  "historyCalls (saveScrollPositions p s) = historyCalls s"
  "st_currentPage (storage (saveScrollPositions p s)) = st_currentPage (storage s)"
  "st_historyStates (storage (saveScrollPositions p s)) = st_historyStates (storage s)"
  by (simp_all add: saveScrollPositions_def)

lemma saveNavigationState_frame:
  "currentPage (saveNavigationState s) = currentPage s"
  "historyStates (saveNavigationState s) = historyStates s"
  "scrollPositions (saveNavigationState s) = scrollPositions s"
  "bypassPopState (saveNavigationState s) = bypassPopState s"
  "consentChecked (saveNavigationState s) = consentChecked s"
  "popstateListener (saveNavigationState s) = popstateListener s"
  "historyCalls (saveNavigationState s) = historyCalls s"
  by (simp_all add: saveNavigationState_def)

lemma js_step_changes: "js_inc v = Num m \<Longrightarrow> v \<noteq> Num m" "js_dec v = Num m \<Longrightarrow> v \<noteq> Num m"
  by (cases v; auto simp: js_inc_def js_dec_def)+

section \<open>Browser navigation: \<open>handlePopState\<close>\<close>

lemma handlePopState_default:
  assumes "\<not> bypassPopState s"
    and "\<not> (strictEq (currentPage s) (Num 1) \<and> page = Num 2 \<and> \<not> consentChecked s)"
    and "\<not> strictEq (currentPage s) (Num totalPages)"
  shows "currentPage (final (handlePopState (Some page) s))
           = (if js_lt page (currentPage s) then js_dec (currentPage s) else js_inc (currentPage s))"
    and "historyStates (final (handlePopState (Some page) s)) = historyStates s"
proof -
  let ?s1 = "saveScrollPositions (currentPage s) s"
  let ?new = "if js_lt page (currentPage s) then js_dec (currentPage s) else js_inc (currentPage s)"
  let ?s2 = "?s1\<lparr>currentPage := ?new\<rparr>"
  have eq: "handlePopState (Some page) s
              = andThen (showPage ?new ?s2) (\<lambda>s3. Inr (saveNavigationState s3))"
    using assms by (auto simp: handlePopState_def Let_def saveScrollPositions_frame)
  show "currentPage (final (handlePopState (Some page) s)) = ?new"
    unfolding eq
    by (cases "showPage ?new ?s2")
       (use showPage_frame(1) [of ?new ?s2] in \<open>auto simp: saveNavigationState_frame\<close>)
  show "historyStates (final (handlePopState (Some page) s)) = historyStates s"
    unfolding eq
    by (cases "showPage ?new ?s2")
       (use showPage_frame(2) [of ?new ?s2] in \<open>auto simp: saveNavigationState_frame saveScrollPositions_frame\<close>)
qed

lemma handlePopState_not_swallowed:
  assumes "\<not> bypassPopState s"
  shows "handlePopState eventState s \<noteq> Inr s"
proof
  assume same: "handlePopState eventState s = Inr s"
  have one: "\<not> (strictEq (currentPage s) (Num 1) \<and> eventState = None)"
    using same assms by (auto simp: handlePopState_def split: if_splits)
  have consent: "\<not> (strictEq (currentPage s) (Num 1) \<and> eventState = Some (Num 2) \<and> \<not> consentChecked s)"
  proof
    assume c: "strictEq (currentPage s) (Num 1) \<and> eventState = Some (Num 2) \<and> \<not> consentChecked s"
    then have "handlePopState eventState s
                 = Inr (s\<lparr>bypassPopState := True, historyCalls := historyCalls s @ [Back]\<rparr>)"
      using assms by (simp add: handlePopState_def)
    with same have "bypassPopState (s\<lparr>bypassPopState := True, historyCalls := historyCalls s @ [Back]\<rparr>)
                      = bypassPopState s" by simp
    with assms show False by simp
  qed
  have terminal: "\<not> strictEq (currentPage s) (Num totalPages)"
  proof
    assume t: "strictEq (currentPage s) (Num totalPages)"
    then have "handlePopState eventState s
                 = Inr (s\<lparr>popstateListener := False, historyCalls := historyCalls s @ [Back]\<rparr>)"
      using assms one consent by (auto simp: handlePopState_def)
    with same have "historyCalls (s\<lparr>popstateListener := False, historyCalls := historyCalls s @ [Back]\<rparr>)
                      = historyCalls s" by simp
    then show False by simp
  qed
  obtain page where ev: "eventState = Some page"
    using same assms one consent terminal by (cases eventState) (auto simp: handlePopState_def)
  let ?new = "if js_lt page (currentPage s) then js_dec (currentPage s) else js_inc (currentPage s)"
  let ?s2 = "(saveScrollPositions (currentPage s) s)\<lparr>currentPage := ?new\<rparr>"
  have eq: "handlePopState (Some page) s
              = andThen (showPage ?new ?s2) (\<lambda>s3. Inr (saveNavigationState s3))"
    using assms one consent terminal ev
    by (auto simp: handlePopState_def Let_def saveScrollPositions_frame)
  obtain s3 where shown: "showPage ?new ?s2 = Inr s3"
    using same eq ev by (cases "showPage ?new ?s2") auto
  obtain m where m: "?new = Num m"
    using showPage_Inr [OF shown] by blast
  have "currentPage (final (handlePopState (Some page) s)) = ?new"
    using handlePopState_default(1) [OF assms, of page] consent terminal ev by simp
  with same ev m have "currentPage s = Num m" by simp
  with m show False
    using js_step_changes [of "currentPage s" m] by (auto split: if_splits)
qed

lemma dispatch_terminal:
  "currentPage s = Num totalPages \<Longrightarrow> currentPage (dispatchPopState s eventState) = Num totalPages"
  by (simp add: dispatchPopState_def handlePopState_def totalPages_def)

lemma dispatch_terminal_run:
  "currentPage s = Num totalPages \<Longrightarrow> currentPage (foldl dispatchPopState s evs) = Num totalPages"
  by (induction evs arbitrary: s) (simp_all add: dispatch_terminal)

lemma dispatch_detached_run:
  "\<not> popstateListener s \<Longrightarrow> foldl dispatchPopState s evs = s"
  by (induction evs) (simp_all add: dispatchPopState_def)

section \<open>The retry loop of \<open>submitData\<close>\<close>

lemma attemptTrace_Suc: "[Fetch data, Delay 500] @ attemptTrace data k = attemptTrace data (Suc k)"
  by (simp add: attemptTrace_def)

lemma loop_all_fail:
  "(\<And>j. i \<le> j \<Longrightarrow> j < retries \<Longrightarrow> attemptError (fetch j) \<noteq> None) \<Longrightarrow>
   submitData_loop data fetch retries i lastError trace
     = (Inl (if i < retries then attemptError (fetch (retries - 1)) else lastError),
        trace @ attemptTrace data (nat (retries - i)))"
proof (induction data fetch retries i lastError trace rule: submitData_loop.induct)
  case (1 data fetch retries i lastError trace)
  show ?case
  proof (cases "i < retries")
    case False
    then show ?thesis
      by (simp add: submitData_loop.simps [of data fetch retries i] attemptTrace_def)
  next
    case True
    have n: "nat (retries - i) = Suc (nat (retries - (i + 1)))" using True by simp
    have fails: "attemptError (fetch i) \<noteq> None" using "1.prems" [of i] True by simp
    have later: "\<And>j. i + 1 \<le> j \<Longrightarrow> j < retries \<Longrightarrow> attemptError (fetch j) \<noteq> None"
      using "1.prems" by simp
    show ?thesis
    proof (cases "fetch i")
      case (Rejected msg)
      have last: "\<not> i + 1 < retries \<Longrightarrow> attemptError (fetch (retries - 1)) = Some (FetchRejected msg)"
      proof -
        assume "\<not> i + 1 < retries"
        with True have "retries - 1 = i" by simp
        then show ?thesis using Rejected by simp
      qed
      show ?thesis
        using "1.IH"(1) [OF True Rejected later] True Rejected last
        by (simp add: submitData_loop.simps [of data fetch retries i] n
            attemptTrace_Suc [symmetric] del: replicate.simps)
    next
      case (Response status)
      then have bad: "\<not> response_ok status" using fails by (simp split: if_splits)
      have last: "\<not> i + 1 < retries \<Longrightarrow> attemptError (fetch (retries - 1)) = Some (ServerReturned status)"
      proof -
        assume "\<not> i + 1 < retries"
        with True have "retries - 1 = i" by simp
        then show ?thesis using Response bad by simp
      qed
      show ?thesis
        using "1.IH"(2) [OF True Response bad later] True Response bad last
        by (simp add: submitData_loop.simps [of data fetch retries i] n
            attemptTrace_Suc [symmetric] del: replicate.simps)
    qed
  qed
qed

lemma loop_first_success:
  "i \<le> k \<Longrightarrow> k < retries \<Longrightarrow> fetch k = Response status \<Longrightarrow> response_ok status \<Longrightarrow>
   (\<And>j. i \<le> j \<Longrightarrow> j < k \<Longrightarrow> attemptError (fetch j) \<noteq> None) \<Longrightarrow>
   submitData_loop data fetch retries i lastError trace
     = (Inr status, trace @ attemptTrace data (nat (k - i)) @ [Fetch data])"
proof (induction data fetch retries i lastError trace rule: submitData_loop.induct)
  case (1 data fetch retries i lastError trace)
  have lt: "i < retries" using "1.prems" by simp
  show ?case
  proof (cases "i = k")
    case True
    then show ?thesis
      using "1.prems" by (simp add: submitData_loop.simps [of data fetch retries k] attemptTrace_def)
  next
    case False
    then have ik: "i + 1 \<le> k" "i < k" using "1.prems"(1) by simp_all
    have n: "nat (k - i) = Suc (nat (k - (i + 1)))" using ik by simp
    have fails: "attemptError (fetch i) \<noteq> None" using "1.prems"(5) [of i] ik by simp
    have later: "\<And>j. i + 1 \<le> j \<Longrightarrow> j < k \<Longrightarrow> attemptError (fetch j) \<noteq> None"
      using "1.prems"(5) by simp
    show ?thesis
    proof (cases "fetch i")
      case (Rejected msg)
      show ?thesis
        using "1.IH"(1) [OF lt Rejected ik(1) "1.prems"(2,3,4) later] lt Rejected
        by (simp add: submitData_loop.simps [of data fetch retries i] n
            attemptTrace_Suc [symmetric] del: replicate.simps)
    next
      case (Response st)
      then have bad: "\<not> response_ok st" using fails by (simp split: if_splits)
      show ?thesis
        using "1.IH"(2) [OF lt Response bad ik(1) "1.prems"(2,3,4) later] lt Response bad
        by (simp add: submitData_loop.simps [of data fetch retries i] n
            attemptTrace_Suc [symmetric] del: replicate.simps)
    qed
  qed
qed

section \<open>What \<open>restoreState\<close> restores\<close>

lemma restoreState_currentPage:
  "currentPage (final (restoreState s)) = savedPageOr (currentPage s) (storage s)"
  by (simp add: restoreState_def savedPageOr_def Let_def
      split: option.splits item.splits formdata.splits)

lemma restoreState_historyStates:
  "historyStates (final (restoreState s))
     = (case st_historyStates (storage s) of Json h \<Rightarrow> h | _ \<Rightarrow> historyStates s)"
  by (simp add: restoreState_def Let_def split: option.splits item.splits formdata.splits)



lemma restoreState_frame:
  "popstateListener (final (restoreState s)) = popstateListener s"
  "storage (final (restoreState s)) = storage s"
  "historyCalls (final (restoreState s)) = historyCalls s"
  by (simp_all add: restoreState_def Let_def split: option.splits item.splits formdata.splits)


section \<open>The history shadow never holds a page twice\<close>

lemma navInvariant_frame:
  "currentPage s' = currentPage s \<Longrightarrow> historyStates s' = historyStates s \<Longrightarrow>
   st_currentPage (storage s') = st_currentPage (storage s) \<Longrightarrow>
   st_historyStates (storage s') = st_historyStates (storage s) \<Longrightarrow>
   navInvariant s' = navInvariant s"
  by (simp add: navInvariant_def)

lemma navInvariant_showPage: "navInvariant (final (showPage p s)) = navInvariant s"
  by (rule navInvariant_frame) (simp_all add: showPage_frame)

lemma navInvariant_saveScrollPositions: "navInvariant (saveScrollPositions p s) = navInvariant s"
  by (rule navInvariant_frame) (simp_all add: saveScrollPositions_frame)

lemma isNum_step: "isNum v \<Longrightarrow> isNum (js_inc v) \<and> isNum (js_dec v)"
  by (cases v) (simp_all add: js_inc_def js_dec_def)

lemma navInvariant_currentPage:
  "navInvariant s \<Longrightarrow> isNum c \<Longrightarrow> navInvariant (s\<lparr>currentPage := c\<rparr>)"
  by (simp add: navInvariant_def)

lemma jsonNumber_numeric: "list_all isNum h \<Longrightarrow> map jsonNumber h = h"
proof (induction h)
  case Nil
  then show ?case by simp
next
  case (Cons p h)
  then show ?case by (cases p) simp_all
qed

lemma navInvariant_saveNavigationState:
  assumes "distinct (historyStates s)" and "list_all isNum (historyStates s)"
    and "isNum (currentPage s)"
  shows "navInvariant (saveNavigationState s)"
proof -
  obtain n where n: "currentPage s = Num n" using assms(3) by (cases "currentPage s") simp_all
  show ?thesis
    using assms n jsonNumber_numeric [OF assms(2)] parseInt_toString [of n]
    by (simp add: navInvariant_def saveNavigationState_def)
qed

lemma navInvariant_save: "navInvariant s \<Longrightarrow> navInvariant (saveNavigationState s)"
  by (rule navInvariant_saveNavigationState) (simp_all add: navInvariant_def)

lemma strictEq_Num: "strictEq p (Num n) = (p = Num n)"
  by (cases p) auto

lemma member_strictEq:
  "isNum c \<Longrightarrow> list_ex (\<lambda>p. strictEq p c) h = (c \<in> set h)"
  by (cases c) (auto simp: list_ex_iff strictEq_Num)

lemma navInvariant_push:
  assumes "navInvariant s" and "currentPage s \<notin> set (historyStates s)"
  shows "navInvariant (saveNavigationState (s\<lparr>historyStates := historyStates s @ [currentPage s],
                                              historyCalls := calls\<rparr>))"
  by (rule navInvariant_saveNavigationState) (use assms in \<open>simp_all add: navInvariant_def\<close>)

lemma navInvariant_syncHistoryForward:
  assumes "navInvariant s"
  shows "navInvariant (syncHistoryForward s)"
proof -
  have num: "isNum (currentPage s)" using assms by (simp add: navInvariant_def)
  show ?thesis
  proof (cases "currentPage s \<in> set (historyStates s)")
    case True
    then have "syncHistoryForward s = s\<lparr>bypassPopState := True, historyCalls := historyCalls s @ [Forward]\<rparr>"
      by (simp add: syncHistoryForward_def member_strictEq [OF num])
    then show ?thesis using assms by (simp add: navInvariant_def)
  next
    case False
    then have "syncHistoryForward s = saveNavigationState
                 (s\<lparr>historyStates := historyStates s @ [currentPage s],
                    historyCalls := historyCalls s @ [PushState (currentPage s)]\<rparr>)"
      by (simp add: syncHistoryForward_def pushPageToHistory_def member_strictEq [OF num])
    then show ?thesis using navInvariant_push [OF assms False] by simp
  qed
qed

lemma navInvariant_show_save:
  assumes "navInvariant s"
  shows "navInvariant (final (andThen (showPage p s) (\<lambda>s3. Inr (saveNavigationState s3))))"
proof (cases "showPage p s")
  case (Inl x)
  then obtain e s' where "showPage p s = Inl (e, s')" by (cases x) auto
  then show ?thesis using navInvariant_showPage [of p s] assms by simp
next
  case (Inr s3)
  then show ?thesis using navInvariant_showPage [of p s] assms by (simp add: navInvariant_save)
qed

lemma navInvariant_show_save_sync:
  assumes "navInvariant s"
  shows "navInvariant (final (andThen (andThen (showPage p s) (\<lambda>s3. Inr (saveNavigationState s3)))
                                (\<lambda>s4. Inr (syncHistoryForward s4))))"
proof (cases "showPage p s")
  case (Inl x)
  then obtain e s' where "showPage p s = Inl (e, s')" by (cases x) auto
  then show ?thesis using navInvariant_showPage [of p s] assms by simp
next
  case (Inr s3)
  then show ?thesis
    using navInvariant_showPage [of p s] assms
    by (simp add: navInvariant_save navInvariant_syncHistoryForward)
qed

lemma navInvariant_nextButtonLogic:
  assumes "navInvariant s"
  shows "navInvariant (final (nextButtonLogic s))"
proof (cases "js_lt (currentPage s) (Num totalPages)")
  case True
  have "navInvariant ((saveScrollPositions (currentPage s) s)
          \<lparr>currentPage := js_inc (currentPage (saveScrollPositions (currentPage s) s))\<rparr>)"
    using assms by (intro navInvariant_currentPage)
      (simp_all add: navInvariant_saveScrollPositions saveScrollPositions_frame isNum_step navInvariant_def)
  then show ?thesis
    using True navInvariant_show_save_sync by (simp add: nextButtonLogic_def Let_def)
next
  case False
  then show ?thesis using assms by (simp add: nextButtonLogic_def navInvariant_syncHistoryForward)
qed

lemma navInvariant_moveToFinalPage:
  assumes "navInvariant s"
  shows "navInvariant (final (moveToFinalPage s))"
proof (cases "js_lt (currentPage s) (Num totalPages)")
  case True
  have "navInvariant ((saveScrollPositions (currentPage s) s)\<lparr>currentPage := Num totalPages\<rparr>)"
    using assms by (intro navInvariant_currentPage) (simp_all add: navInvariant_saveScrollPositions)
  then show ?thesis
    using True navInvariant_show_save_sync by (simp add: moveToFinalPage_def Let_def)
next
  case False
  then show ?thesis using assms by (simp add: moveToFinalPage_def navInvariant_syncHistoryForward)
qed

lemma navInvariant_backButtonLogic:
  assumes "navInvariant s"
  shows "navInvariant (final (backButtonLogic s))"
proof (cases "js_gt (currentPage s) (Num 1) \<and> js_lt (currentPage s) (Num totalPages)")
  case True
  let ?s2 = "(saveScrollPositions (currentPage s) s)
          \<lparr>currentPage := js_dec (currentPage (saveScrollPositions (currentPage s) s))\<rparr>"
  have inv2: "navInvariant ?s2"
    using assms by (intro navInvariant_currentPage)
      (simp_all add: navInvariant_saveScrollPositions saveScrollPositions_frame isNum_step navInvariant_def)
  have eq: "backButtonLogic s = andThen (showPage (currentPage ?s2) ?s2)
                 (\<lambda>s3. Inr ((saveNavigationState s3)
                      \<lparr>bypassPopState := True, historyCalls := historyCalls s3 @ [Back]\<rparr>))"
    using True by (simp add: backButtonLogic_def Let_def)
  show ?thesis
  proof (cases "showPage (currentPage ?s2) ?s2")
    case (Inl x)
    then obtain e s' where "showPage (currentPage ?s2) ?s2 = Inl (e, s')" by (cases x) auto
    then show ?thesis using navInvariant_showPage [of "currentPage ?s2" ?s2] inv2 eq by simp
  next
    case (Inr s3)
    then have "navInvariant (saveNavigationState s3)"
      using navInvariant_showPage [of "currentPage ?s2" ?s2] inv2 by (simp add: navInvariant_save)
    then have "navInvariant ((saveNavigationState s3)
                  \<lparr>bypassPopState := True, historyCalls := historyCalls s3 @ [Back]\<rparr>)"
      by (simp add: navInvariant_def)
    then show ?thesis using eq Inr by simp
  qed
next
  case False
  then show ?thesis using assms by (auto simp: backButtonLogic_def)
qed

lemma navInvariant_handlePopState:
  assumes "navInvariant s"
  shows "navInvariant (final (handlePopState eventState s))"
proof -
  have upd: "\<And>b calls l. navInvariant (s\<lparr>bypassPopState := b\<rparr>) \<and>
        navInvariant (s\<lparr>bypassPopState := b, historyCalls := calls\<rparr>) \<and>
        navInvariant (s\<lparr>popstateListener := l, historyCalls := calls\<rparr>)"
    using assms by (simp add: navInvariant_def)
  have dflt: "navInvariant (final (andThen
        (showPage c ((saveScrollPositions (currentPage s) s)\<lparr>currentPage := c\<rparr>))
        (\<lambda>s3. Inr (saveNavigationState s3))))" if "isNum c" for c
    using that assms
    by (intro navInvariant_show_save navInvariant_currentPage)
       (simp_all add: navInvariant_saveScrollPositions)
  have num: "isNum (currentPage s)" using assms by (simp add: navInvariant_def)
  show ?thesis
    using upd assms dflt [OF isNum_step [OF num, THEN conjunct1]]
      dflt [OF isNum_step [OF num, THEN conjunct2]]
    by (auto simp: handlePopState_def Let_def saveScrollPositions_frame split: option.splits)
qed

lemma navInvariant_dispatchPopState:
  "navInvariant s \<Longrightarrow> navInvariant (dispatchPopState s eventState)"
  by (simp add: dispatchPopState_def navInvariant_handlePopState)

lemma navInvariant_submitButtonLogic:
  assumes "navInvariant s"
  shows "navInvariant (fst (submitButtonLogic fetch s))"
proof -
  have ui: "\<And>s' l. navInvariant (s'\<lparr>uiLog := l\<rparr>) = navInvariant s'"
    by (simp add: navInvariant_def)
  have failed: "\<And>s'. navInvariant (submitFailed s') = navInvariant s'"
    by (simp add: navInvariant_def submitFailed_def)
  have cleared: "\<And>s'. navInvariant (clearState s') = navInvariant s'"
    by (simp add: navInvariant_def clearState_def)
  have moved: "\<And>s'. navInvariant s' \<Longrightarrow> (case moveToFinalPage s' of
      Inr s2 \<Rightarrow> navInvariant s2 | Inl (e, s2) \<Rightarrow> navInvariant s2)"
    subgoal for s'
      using navInvariant_moveToFinalPage [of s']
      by (cases "moveToFinalPage s'") (auto split: prod.splits)
    done
  show ?thesis
    using assms moved [of "s\<lparr>uiLog := uiLog s @ [Notification ''hide'' ''submit-error-message'',
                                      Notification ''show'' ''submit-data-notification'',
                                      ScrollToBottom, Notification ''hide'' ''submit-data-notification'']\<rparr>"]
    by (auto simp: submitButtonLogic_def Let_def ui failed cleared split: sum.splits prod.splits)
qed


lemma navInvariant_restoreState:
  assumes "storageInvariant (storage s)" and "historyStates s = []" and "isNum (currentPage s)"
  shows "navInvariant (final (restoreState s))"
proof -
  have page: "isNum (savedPageOr (currentPage s) (storage s))"
    using assms(1,3) by (auto simp: savedPageOr_def storageInvariant_def split: option.splits)
  have hist: "distinct (case st_historyStates (storage s) of Json h \<Rightarrow> h | _ \<Rightarrow> historyStates s) \<and>
              list_all isNum (case st_historyStates (storage s) of Json h \<Rightarrow> h | _ \<Rightarrow> historyStates s)"
    using assms(1,2) by (auto simp: storageInvariant_def split: item.splits)
  show ?thesis
    using page hist assms(1)
    by (simp add: navInvariant_def storageInvariant_def restoreState_currentPage
        restoreState_historyStates restoreState_frame)
qed

lemma navInvariant_initializeHistory:
  assumes "navInvariant s"
  shows "navInvariant (initializeHistory (currentPage s) s)"
proof -
  have num: "isNum (currentPage s)" using assms by (simp add: navInvariant_def)
  show ?thesis
  proof (cases "currentPage s \<in> set (historyStates s)")
    case True
    then have "initializeHistory (currentPage s) s
                 = saveNavigationState (s\<lparr>historyCalls := historyCalls s @ [ReplaceState (currentPage s)]\<rparr>)"
      by (simp add: initializeHistory_def member_strictEq [OF num])
    moreover have "navInvariant (s\<lparr>historyCalls := historyCalls s @ [ReplaceState (currentPage s)]\<rparr>)"
      using assms by (simp add: navInvariant_def)
    ultimately show ?thesis by (simp add: navInvariant_save)
  next
    case False
    then have "initializeHistory (currentPage s) s
                 = saveNavigationState (s\<lparr>historyStates := historyStates s @ [currentPage s],
                      historyCalls := historyCalls s @ [ReplaceState (currentPage s)]\<rparr>)"
      by (simp add: initializeHistory_def member_strictEq [OF num])
    then show ?thesis using navInvariant_push [OF assms False] by simp
  qed
qed

lemma navInvariant_initializePage:
  assumes "storageInvariant st"
  shows "navInvariant (final (initializePage metadata (loadGlobals st calls)))"
proof (cases metadata)
  case None
  then show ?thesis
    using assms
    by (simp add: initializePage_def referenceElements_def loadGlobals_def navInvariant_def
        storageInvariant_def)
next
  case (Some m)
  obtain pid grp where m: "m = (pid, grp)" by (cases m)
  define st' where "st' = st\<lparr>st_chatbotAlreadyOpened :=
       Some (if st_chatbotAlreadyOpened st = Some ''true'' then ''true'' else ''false''),
       st_participantId := Some pid, st_treatmentGroup := Some grp\<rparr>"
  have st': "storageInvariant st'" using assms by (simp add: st'_def storageInvariant_def)
  define s2 where "s2 = (loadGlobals st calls)\<lparr>storage := st'\<rparr>"
  have restore_eq: "restoreState s2 = restoreState ((loadGlobals st' calls)
        \<lparr>chatbotAlreadyOpened := (st_chatbotAlreadyOpened st = Some ''true'')\<rparr>)"
    by (simp add: s2_def loadGlobals_def)
  have inv_r: "navInvariant (final (restoreState s2))"
    using st' by (intro navInvariant_restoreState) (simp_all add: s2_def loadGlobals_def)
  have eq: "initializePage metadata (loadGlobals st calls)
              = andThen (restoreState s2)
                  (\<lambda>s3. andThen (showPage (currentPage s3) (initializeHistory (currentPage s3) s3))
                     (\<lambda>s4. Inr ((attachEventListeners s4)
                        \<lparr>uiLog := uiLog s4 @ [DispatchEvent ''surveyDataInitialized'']\<rparr>)))"
    using Some m
    by (simp add: initializePage_def referenceElements_def s2_def st'_def loadGlobals_def Let_def)
  show ?thesis
  proof (cases "restoreState s2")
    case (Inl x)
    then obtain e s' where "restoreState s2 = Inl (e, s')" by (cases x) auto
    then show ?thesis using inv_r eq by simp
  next
    case (Inr s3)
    then have inv3: "navInvariant s3" using inv_r by simp
    let ?s3' = "initializeHistory (currentPage s3) s3"
    have inv3': "navInvariant ?s3'" using inv3 by (rule navInvariant_initializeHistory)
    have shown: "navInvariant (final (showPage (currentPage s3) ?s3'))"
      using inv3' by (simp add: navInvariant_showPage)
    show ?thesis
    proof (cases "showPage (currentPage s3) ?s3'")
      case (Inl x)
      then obtain e s' where "showPage (currentPage s3) ?s3' = Inl (e, s')" by (cases x) auto
      then show ?thesis using shown eq Inr by simp
    next
      case inr4: (Inr s4)
      then have "navInvariant s4" using shown by simp
      then have "navInvariant ((attachEventListeners s4)
                        \<lparr>uiLog := uiLog s4 @ [DispatchEvent ''surveyDataInitialized'']\<rparr>)"
        by (simp add: navInvariant_def attachEventListeners_def)
      then show ?thesis using eq Inr inr4 by simp
    qed
  qed
qed

lemma navInvariant_storage: "navInvariant s \<Longrightarrow> storageInvariant (storage s)"
  by (simp add: navInvariant_def storageInvariant_def)

lemma navInvariant_reloadPage:
  assumes "navInvariant s"
  shows "navInvariant (reloadPage metadata s)"
proof -
  have "storageInvariant (storage (if beforeunloadListener s
                           then saveScrollPositions (currentPage s) s else s))"
    using assms by (auto intro: navInvariant_storage simp: navInvariant_saveScrollPositions)
  then show ?thesis
    unfolding reloadPage_def by (rule navInvariant_initializePage)
qed

lemma reachable_navInvariant: "reachable s \<Longrightarrow> navInvariant s"
proof (induction rule: reachable.induct)
  case (load metadata)
  have "storageInvariant emptyStorage" by (simp add: storageInvariant_def emptyStorage_def)
  then show ?case unfolding freshSession_def by (rule navInvariant_initializePage)
next
  case (nextButton s)
  then show ?case by (simp add: navInvariant_nextButtonLogic)
next
  case (backButton s)
  then show ?case by (simp add: navInvariant_backButtonLogic)
next
  case (submitButton s fetch)
  then show ?case by (simp add: navInvariant_submitButtonLogic)
next
  case (popstate s eventState)
  then show ?case by (simp add: navInvariant_dispatchPopState)
next
  case (consent s checked)
  then show ?case by (simp add: navInvariant_def consentCheckboxLogic_def)
next
  case (scroll s y)
  then show ?case by (simp add: navInvariant_def)
next
  case (chat s c)
  then show ?case by (simp add: navInvariant_def)
next
  case (reload s metadata)
  then show ?case by (simp add: navInvariant_reloadPage)
qed

section \<open>The concrete sessions, evaluated\<close>

lemmas js_simps = js_lt_def js_le_def js_gt_def js_ge_def js_inc_def js_dec_def
  showInt_def showNat.simps digitChar_def totalPages_def chatbotPage_def

lemmas page_simps = showPage_def cancelScrollDelays_def applyChatbotViewState_def
  trackChatbotArrival_def saveNavigationState_def saveScrollPositions_def
  pushPageToHistory_def syncHistoryForward_def Let_def

lemmas nav_simps = nextButtonLogic_def backButtonLogic_def consentCheckboxLogic_def
  dispatchPopState_def handlePopState_def

lemma demoLoaded_eq:
  "demoLoaded =
     \<lparr>currentPage = Num 1, historyStates = [Num 1], scrollPositions = Map.empty,
      bypassPopState = False, chatbotAlreadyOpened = False,
      storage = \<lparr>st_currentPage = Some ''1'', st_historyStates = Json [Num 1],
                 st_scrollPositions = Missing, st_formData = Missing,
                 st_chatbotAlreadyOpened = Some ''false'', st_participantId = Some ''ID-ABC'',
                 st_treatmentGroup = Some ''1'', st_conversation = None\<rparr>,
      consentChecked = False, activePage = Some (Num 1), chatbotVisible = False,
      pendingScroll = None, windowScrollY = 0, popstateListener = True,
      beforeunloadListener = True, historyCalls = [ReplaceState (Num 1)],
      uiLog = [DispatchEvent ''surveyDataInitialized'']\<rparr>"
  by (simp add: demoLoaded_def demoMeta_def initializePage_def freshSession_def loadGlobals_def
      emptyStorage_def referenceElements_def restoreState_def initializeHistory_def
      attachEventListeners_def page_simps js_simps)

lemma demoFinal_eq:
  "demoFinal =
     \<lparr>currentPage = Num 9, historyStates = [Num 1, Num 9], scrollPositions = [Num 1 \<mapsto> 0],
      bypassPopState = False, chatbotAlreadyOpened = False,
      storage = \<lparr>st_currentPage = Some ''9'', st_historyStates = Json [Num 1, Num 9],
                 st_scrollPositions = Json [Num 1 \<mapsto> 0], st_formData = Missing,
                 st_chatbotAlreadyOpened = Some ''false'', st_participantId = Some ''ID-ABC'',
                 st_treatmentGroup = Some ''1'', st_conversation = None\<rparr>,
      consentChecked = False, activePage = Some (Num 9), chatbotVisible = False,
      pendingScroll = None, windowScrollY = 0, popstateListener = True,
      beforeunloadListener = True, historyCalls = [ReplaceState (Num 1), PushState (Num 9)],
      uiLog = [DispatchEvent ''surveyDataInitialized'']\<rparr>"
  by (simp add: demoFinal_def demoLoaded_eq moveToFinalPage_def page_simps js_simps)

lemma demoPage2_eq:
  "demoPage2 =
     \<lparr>currentPage = Num 2, historyStates = [Num 1, Num 2], scrollPositions = [Num 1 \<mapsto> 0],
      bypassPopState = False, chatbotAlreadyOpened = False,
      storage = \<lparr>st_currentPage = Some ''2'', st_historyStates = Json [Num 1, Num 2],
                 st_scrollPositions = Json [Num 1 \<mapsto> 0], st_formData = Json (FormObject True),
                 st_chatbotAlreadyOpened = Some ''false'', st_participantId = Some ''ID-ABC'',
                 st_treatmentGroup = Some ''1'', st_conversation = None\<rparr>,
      consentChecked = True, activePage = Some (Num 2), chatbotVisible = False,
      pendingScroll = None, windowScrollY = 0, popstateListener = True,
      beforeunloadListener = True, historyCalls = [ReplaceState (Num 1), PushState (Num 2)],
      uiLog = [DispatchEvent ''surveyDataInitialized'']\<rparr>"
  by (simp add: demoPage2_def demoLoaded_eq nav_simps page_simps js_simps)

lemma demoPage5_fields:
  "currentPage demoPage5 = Num 5" "\<not> bypassPopState demoPage5"
  "historyStates demoPage5 = [Num 1, Num 2, Num 3, Num 4, Num 5]"
  "chatbotAlreadyOpened demoPage5" "consentChecked demoPage5"
  by (simp_all add: demoPage5_def demoPage2_eq nav_simps page_simps js_simps)

lemma demoBack_fields:
  "currentPage demoBack = Num 1" "bypassPopState demoBack" "consentChecked demoBack"
  "historyStates demoBack = [Num 1, Num 2]"
  "historyCalls demoBack = [ReplaceState (Num 1), PushState (Num 2), Back]"
  by (simp_all add: demoBack_def demoPage2_eq nav_simps page_simps js_simps)

lemma demoRevoked_fields:
  "currentPage demoRevoked = Num 1" "\<not> consentChecked demoRevoked" "\<not> bypassPopState demoRevoked"
  "historyStates demoRevoked = [Num 1, Num 2, Num 3]" "popstateListener demoRevoked"
  by (simp_all add: demoRevoked_def demoLoaded_eq nav_simps page_simps js_simps)

lemma demoRevoked_jump:
  "currentPage (dispatchPopState demoRevoked (Some (Num 3))) = Num 2"
  by (simp add: demoRevoked_def demoLoaded_eq nav_simps page_simps js_simps)

section \<open>The buttons at the first and the last page\<close>

lemma backButtonLogic_first_page: "currentPage s = Num 1 \<Longrightarrow> backButtonLogic s = Inr s"
  by (simp add: backButtonLogic_def js_gt_def js_lt_def)

lemma nextButtonLogic_final_page:
  "currentPage s = Num totalPages \<Longrightarrow> nextButtonLogic s = Inr (syncHistoryForward s)"
  by (simp add: nextButtonLogic_def js_lt_def)

lemma nextButtonLogic_final_page_visited:
  "currentPage s = Num totalPages \<Longrightarrow> Num totalPages \<in> set (historyStates s) \<Longrightarrow>
   nextButtonLogic s = Inr (s\<lparr>bypassPopState := True, historyCalls := historyCalls s @ [Forward]\<rparr>)"
  by (simp add: nextButtonLogic_final_page syncHistoryForward_def member_strictEq)

text \<open>
  Claim C1 says that \<open>nextButtonLogic\<close> on the last page changes nothing. It does: in the
  session \<open>demoFinal\<close>, which is on page 9 after a submission, the guarded block is skipped,
  but the history block after it runs. Page 9 is in \<open>historyStates\<close>, so the call sets
  \<open>bypassPopState\<close> and calls \<^verbatim>\<open>history.forward()\<close>; the flag then swallows the next
  \<^verbatim>\<open>popstate\<close> event. (The other half of the claim holds: \<open>backButtonLogic_first_page\<close>.)
\<close>

theorem nextButtonLogic_at_final_page:
  "currentPage demoFinal = Num totalPages \<and> \<not> bypassPopState demoFinal \<and>
   nextButtonLogic demoFinal
     = Inr (demoFinal\<lparr>bypassPopState := True, historyCalls := historyCalls demoFinal @ [Forward]\<rparr>) \<and>
   bypassPopState (final (nextButtonLogic demoFinal)) \<and>
   handlePopState (Some (Num 1)) (final (nextButtonLogic demoFinal))
     = Inr (demoFinal\<lparr>historyCalls := historyCalls demoFinal @ [Forward]\<rparr>)"
  by (simp add: demoFinal_eq nextButtonLogic_def handlePopState_def page_simps js_simps)

section \<open>The suppression flag\<close>

text \<open>
  Claim C3. When \<open>bypassPopState\<close> is set, \<open>handlePopState\<close> only clears it: the current
  page, \<open>historyStates\<close>, \<open>scrollPositions\<close>, the page shown, the storage, the history calls
  and the listener stay as they are. The flag is clear afterwards, and the notification
  after that one is not swallowed: whatever its state object, the handler throws or
  returns a changed state.
\<close>

theorem handlePopState_bypass_single_shot:
  assumes "bypassPopState s"
  shows "handlePopState eventState s = Inr (s\<lparr>bypassPopState := False\<rparr>) \<and>
         currentPage (final (handlePopState eventState s)) = currentPage s \<and>
         historyStates (final (handlePopState eventState s)) = historyStates s \<and>
         scrollPositions (final (handlePopState eventState s)) = scrollPositions s \<and>
         activePage (final (handlePopState eventState s)) = activePage s \<and>
         storage (final (handlePopState eventState s)) = storage s \<and>
         historyCalls (final (handlePopState eventState s)) = historyCalls s \<and>
         popstateListener (final (handlePopState eventState s)) = popstateListener s \<and>
         \<not> bypassPopState (final (handlePopState eventState s)) \<and>
         handlePopState eventState' (final (handlePopState eventState s))
           \<noteq> Inr (final (handlePopState eventState s))"
proof -
  have eq: "handlePopState eventState s = Inr (s\<lparr>bypassPopState := False\<rparr>)"
    using assms by (simp add: handlePopState_def)
  have "\<not> bypassPopState (s\<lparr>bypassPopState := False\<rparr>)" by simp
  then have "handlePopState eventState' (s\<lparr>bypassPopState := False\<rparr>)
               \<noteq> Inr (s\<lparr>bypassPopState := False\<rparr>)"
    by (rule handlePopState_not_swallowed)
  then show ?thesis using eq by simp
qed

theorem handlePopState_bypass_single_shot_witness:
  "bypassPopState demoBack \<and>
   handlePopState (Some (Num 1)) demoBack = Inr (demoBack\<lparr>bypassPopState := False\<rparr>) \<and>
   currentPage (final (handlePopState (Some (Num 1)) demoBack)) = Num 1 \<and>
   currentPage (final (handlePopState (Some (Num 2))
                         (final (handlePopState (Some (Num 1)) demoBack)))) = Num 2"
proof -
  have b: "bypassPopState demoBack" by (simp add: demoBack_fields)
  have first: "handlePopState (Some (Num 1)) demoBack = Inr (demoBack\<lparr>bypassPopState := False\<rparr>)"
    using handlePopState_bypass_single_shot [OF b, of "Some (Num 1)" "Some (Num 2)"] by simp
  have "currentPage (final (handlePopState (Some (Num 2)) (demoBack\<lparr>bypassPopState := False\<rparr>)))
          = Num 2"
    using handlePopState_default(1) [of "demoBack\<lparr>bypassPopState := False\<rparr>" "Num 2"]
    by (simp add: demoBack_fields js_simps)
  then show ?thesis using b first by (simp add: demoBack_fields)
qed

section \<open>The direction of a browser navigation\<close>

text \<open>
  Claim C4. Let the flag be clear, the consent case not apply (the page is not 1, or the
  destination is not page 2, or consent is given) and the current page \<open>c\<close> not be the
  last. If the page of the destination entry is smaller than \<open>c\<close>, the current page
  becomes \<open>c - 1\<close>; if it is larger, \<open>c + 1\<close>. In both cases \<open>historyStates\<close> stays as it
  is. (This holds also when \<open>showPage\<close> throws for the new page number.)
\<close>

theorem handlePopState_direction:
  assumes "\<not> bypassPopState s"
    and "\<not> (strictEq (currentPage s) (Num 1) \<and> page = Num 2 \<and> \<not> consentChecked s)"
    and "\<not> strictEq (currentPage s) (Num totalPages)"
    and "currentPage s = Num c"
  shows "(js_lt page (currentPage s) \<longrightarrow>
            currentPage (final (handlePopState (Some page) s)) = Num (c - 1)) \<and>
         (js_gt page (currentPage s) \<longrightarrow>
            currentPage (final (handlePopState (Some page) s)) = Num (c + 1)) \<and>
         historyStates (final (handlePopState (Some page) s)) = historyStates s"
proof -
  have "js_gt page (currentPage s) \<Longrightarrow> \<not> js_lt page (currentPage s)"
    by (auto simp: js_gt_def js_lt_def split: option.splits)
  then show ?thesis
    using handlePopState_default [OF assms(1-3)] assms(4)
    by (auto simp: js_dec_def js_inc_def)
qed

theorem handlePopState_direction_witness:
  "\<not> bypassPopState demoPage5 \<and> currentPage demoPage5 = Num 5 \<and>
   js_lt (Num 4) (currentPage demoPage5) \<and>
   currentPage (final (handlePopState (Some (Num 4)) demoPage5)) = Num 4 \<and>
   historyStates (final (handlePopState (Some (Num 4)) demoPage5))
     = [Num 1, Num 2, Num 3, Num 4, Num 5]"
  using handlePopState_direction [of demoPage5 "Num 4" 5]
  by (simp add: demoPage5_fields js_simps)

section \<open>The final page\<close>

text \<open>
  Claim C5. On the last page, with the flag clear, \<open>handlePopState\<close> removes itself as
  the listener, calls \<^verbatim>\<open>history.back()\<close> once and leaves everything else, the current page
  included. After that no sequence of \<^verbatim>\<open>popstate\<close> events changes the state. And from any
  state on the last page, detached or not, no sequence of \<^verbatim>\<open>popstate\<close> events moves the
  current page.
\<close>

theorem handlePopState_terminal_detaches:
  assumes "currentPage s = Num totalPages" and "\<not> bypassPopState s"
  shows "handlePopState eventState s
           = Inr (s\<lparr>popstateListener := False, historyCalls := historyCalls s @ [Back]\<rparr>) \<and>
         currentPage (final (handlePopState eventState s)) = Num totalPages \<and>
         foldl dispatchPopState (final (handlePopState eventState s)) evs
           = final (handlePopState eventState s) \<and>
         currentPage (foldl dispatchPopState s evs) = Num totalPages"
proof -
  have eq: "handlePopState eventState s
              = Inr (s\<lparr>popstateListener := False, historyCalls := historyCalls s @ [Back]\<rparr>)"
    using assms by (simp add: handlePopState_def totalPages_def)
  have "\<not> popstateListener (final (handlePopState eventState s))"
    by (simp add: eq)
  then have "foldl dispatchPopState (final (handlePopState eventState s)) evs
               = final (handlePopState eventState s)"
    by (rule dispatch_detached_run)
  then show ?thesis
    using eq assms(1) dispatch_terminal_run [OF assms(1), of evs] by simp
qed

theorem handlePopState_terminal_detaches_witness:
  "currentPage demoFinal = Num totalPages \<and> \<not> bypassPopState demoFinal \<and>
   handlePopState (Some (Num 1)) demoFinal
     = Inr (demoFinal\<lparr>popstateListener := False,
                      historyCalls := historyCalls demoFinal @ [Back]\<rparr>) \<and>
   currentPage (final (handlePopState (Some (Num 1)) demoFinal)) = Num totalPages \<and>
   foldl dispatchPopState (final (handlePopState (Some (Num 1)) demoFinal))
       [Some (Num 1), Some (Num 9), None]
     = final (handlePopState (Some (Num 1)) demoFinal)"
proof -
  have p: "currentPage demoFinal = Num totalPages" "\<not> bypassPopState demoFinal"
    by (simp_all add: demoFinal_eq totalPages_def)
  show ?thesis
    using p handlePopState_terminal_detaches [OF p, of "Some (Num 1)"
        "[Some (Num 1), Some (Num 9), None]"]
    by blast
qed

section \<open>The consent gate\<close>

text \<open>
  Claim C6, as stated, fails in two ways. With the flag already set, the event on page
  1 with destination page 2 and no consent is consumed: the flag is cleared, not set, and
  \<^verbatim>\<open>history.back()\<close> is not called. And browser navigation can move the session past
  page 1 without consent: in \<open>demoRevoked\<close> (page 1, consent unchecked, flag clear) an event
  whose destination is page 3 takes the default branch and the current page becomes 2.
\<close>

theorem handlePopState_consent_counterexample:
  "currentPage (demoLoaded\<lparr>bypassPopState := True\<rparr>) = Num 1 \<and>
   \<not> consentChecked (demoLoaded\<lparr>bypassPopState := True\<rparr>) \<and>
   \<not> bypassPopState (final (handlePopState (Some (Num 2)) (demoLoaded\<lparr>bypassPopState := True\<rparr>))) \<and>
   historyCalls (final (handlePopState (Some (Num 2)) (demoLoaded\<lparr>bypassPopState := True\<rparr>)))
     = historyCalls demoLoaded \<and>
   currentPage demoRevoked = Num 1 \<and> \<not> consentChecked demoRevoked \<and>
   \<not> bypassPopState demoRevoked \<and>
   currentPage (dispatchPopState demoRevoked (Some (Num 3))) = Num 2"
  by (simp add: demoRevoked_fields demoRevoked_jump) (simp add: demoLoaded_eq handlePopState_def)

text \<open>
  Claim C6, amended. On page 1 without consent, an event whose destination is page 2:
  with the flag clear, \<open>handlePopState\<close> sets the flag, calls \<^verbatim>\<open>history.back()\<close> once and
  changes nothing else; with the flag set, it clears the flag. Either way the current
  page is still 1, so an event with destination page 2 never moves the session past page
  1 without consent.
\<close>

theorem handlePopState_consent_gate:
  assumes "currentPage s = Num 1" and "\<not> consentChecked s"
  shows "(\<not> bypassPopState s \<longrightarrow> handlePopState (Some (Num 2)) s
           = Inr (s\<lparr>bypassPopState := True, historyCalls := historyCalls s @ [Back]\<rparr>)) \<and>
         (bypassPopState s \<longrightarrow> handlePopState (Some (Num 2)) s = Inr (s\<lparr>bypassPopState := False\<rparr>)) \<and>
         currentPage (final (handlePopState (Some (Num 2)) s)) = Num 1 \<and>
         currentPage (dispatchPopState s (Some (Num 2))) = Num 1"
  using assms by (simp add: handlePopState_def dispatchPopState_def)

theorem handlePopState_consent_gate_witness:
  "currentPage demoRevoked = Num 1 \<and> \<not> consentChecked demoRevoked \<and>
   \<not> bypassPopState demoRevoked \<and>
   handlePopState (Some (Num 2)) demoRevoked
     = Inr (demoRevoked\<lparr>bypassPopState := True,
                        historyCalls := historyCalls demoRevoked @ [Back]\<rparr>) \<and>
   currentPage (dispatchPopState demoRevoked (Some (Num 2))) = Num 1"
  using handlePopState_consent_gate [of demoRevoked]
  by (simp add: demoRevoked_fields)

section \<open>No page twice in the history shadow\<close>

lemma handlePopState_historyStates:
  "historyStates (final (handlePopState eventState s)) = historyStates s"
proof -
  have dflt: "historyStates (final (andThen
        (showPage c ((saveScrollPositions (currentPage s) s)\<lparr>currentPage := c\<rparr>))
        (\<lambda>s3. Inr (saveNavigationState s3)))) = historyStates s" for c
    using showPage_frame(2) [of c "(saveScrollPositions (currentPage s) s)\<lparr>currentPage := c\<rparr>"]
    by (cases "showPage c ((saveScrollPositions (currentPage s) s)\<lparr>currentPage := c\<rparr>)")
       (auto simp: saveNavigationState_frame saveScrollPositions_frame)
  show ?thesis
    using dflt
    by (auto simp: handlePopState_def Let_def saveScrollPositions_frame split: option.splits)
qed

lemma dispatchPopState_historyStates:
  "historyStates (dispatchPopState s eventState) = historyStates s"
  by (simp add: dispatchPopState_def handlePopState_historyStates)

lemma backButtonLogic_historyStates:
  "historyStates (final (backButtonLogic s)) = historyStates s"
proof (cases "js_gt (currentPage s) (Num 1) \<and> js_lt (currentPage s) (Num totalPages)")
  case True
  let ?s2 = "(saveScrollPositions (currentPage s) s)
          \<lparr>currentPage := js_dec (currentPage (saveScrollPositions (currentPage s) s))\<rparr>"
  have eq: "backButtonLogic s = andThen (showPage (currentPage ?s2) ?s2)
                 (\<lambda>s3. Inr ((saveNavigationState s3)
                      \<lparr>bypassPopState := True, historyCalls := historyCalls s3 @ [Back]\<rparr>))"
    using True by (simp add: backButtonLogic_def Let_def)
  show ?thesis
    unfolding eq
    using showPage_frame(2) [of "currentPage ?s2" ?s2]
    by (cases "showPage (currentPage ?s2) ?s2")
       (auto simp: saveNavigationState_frame saveScrollPositions_frame)
next
  case False
  then show ?thesis by (auto simp: backButtonLogic_def)
qed

lemma syncHistoryForward_historyStates:
  "isNum (currentPage s) \<Longrightarrow>
   historyStates (syncHistoryForward s)
     = (if currentPage s \<in> set (historyStates s) then historyStates s
        else historyStates s @ [currentPage s])"
  by (simp add: syncHistoryForward_def pushPageToHistory_def member_strictEq
      saveNavigationState_frame)

lemma show_save_sync_historyStates:
  assumes "isNum (currentPage s)"
  shows "historyStates (final (andThen (andThen (showPage p s) (\<lambda>s3. Inr (saveNavigationState s3)))
                                (\<lambda>s4. Inr (syncHistoryForward s4)))) = historyStates s \<or>
         (currentPage s \<notin> set (historyStates s) \<and>
          historyStates (final (andThen (andThen (showPage p s) (\<lambda>s3. Inr (saveNavigationState s3)))
                                (\<lambda>s4. Inr (syncHistoryForward s4)))) = historyStates s @ [currentPage s])"
proof (cases "showPage p s")
  case (Inl x)
  then obtain e s' where "showPage p s = Inl (e, s')" by (cases x) auto
  then show ?thesis using showPage_frame(2) [of p s] by simp
next
  case (Inr s3)
  then have f: "currentPage s3 = currentPage s" "historyStates s3 = historyStates s"
    using showPage_frame(1,2) [of p s] by simp_all
  have "isNum (currentPage (saveNavigationState s3))"
    using assms f by (simp add: saveNavigationState_frame)
  then show ?thesis
    using Inr f syncHistoryForward_historyStates [of "saveNavigationState s3"]
    by (simp add: saveNavigationState_frame)
qed

lemma nextButtonLogic_historyStates:
  assumes "isNum (currentPage s)"
  shows "historyStates (final (nextButtonLogic s)) = historyStates s \<or>
         (\<exists>p. p \<notin> set (historyStates s) \<and>
              historyStates (final (nextButtonLogic s)) = historyStates s @ [p])"
proof (cases "js_lt (currentPage s) (Num totalPages)")
  case True
  let ?s2 = "(saveScrollPositions (currentPage s) s)
          \<lparr>currentPage := js_inc (currentPage (saveScrollPositions (currentPage s) s))\<rparr>"
  have num: "isNum (currentPage ?s2)"
    using assms by (simp add: saveScrollPositions_frame isNum_step)
  have h: "historyStates ?s2 = historyStates s" by (simp add: saveScrollPositions_frame)
  have eq: "nextButtonLogic s
      = andThen (andThen (showPage (currentPage ?s2) ?s2) (\<lambda>s3. Inr (saveNavigationState s3)))
                (\<lambda>s4. Inr (syncHistoryForward s4))"
    using True by (simp add: nextButtonLogic_def Let_def)
  show ?thesis
    unfolding eq using show_save_sync_historyStates [OF num, of "currentPage ?s2"] h by auto
next
  case False
  then show ?thesis
    using syncHistoryForward_historyStates [OF assms]
    by (auto simp: nextButtonLogic_def)
qed

lemma moveToFinalPage_historyStates:
  assumes "isNum (currentPage s)"
  shows "historyStates (final (moveToFinalPage s)) = historyStates s \<or>
         (\<exists>p. p \<notin> set (historyStates s) \<and>
              historyStates (final (moveToFinalPage s)) = historyStates s @ [p])"
proof (cases "js_lt (currentPage s) (Num totalPages)")
  case True
  let ?s2 = "(saveScrollPositions (currentPage s) s)\<lparr>currentPage := Num totalPages\<rparr>"
  have num: "isNum (currentPage ?s2)" by simp
  have h: "historyStates ?s2 = historyStates s" by (simp add: saveScrollPositions_frame)
  have eq: "moveToFinalPage s
      = andThen (andThen (showPage (currentPage ?s2) ?s2) (\<lambda>s3. Inr (saveNavigationState s3)))
                (\<lambda>s4. Inr (syncHistoryForward s4))"
    using True by (simp add: moveToFinalPage_def Let_def)
  show ?thesis
    unfolding eq using show_save_sync_historyStates [OF num, of "currentPage ?s2"] h by auto
next
  case False
  then show ?thesis
    using syncHistoryForward_historyStates [OF assms]
    by (auto simp: moveToFinalPage_def)
qed

lemma initializeHistory_historyStates:
  assumes "isNum (currentPage s)"
  shows "historyStates (initializeHistory (currentPage s) s)
           = (if currentPage s \<in> set (historyStates s) then historyStates s
              else historyStates s @ [currentPage s])"
  using assms by (simp add: initializeHistory_def member_strictEq saveNavigationState_frame)

text \<open>
  Claim C7. In every reachable state \<open>historyStates\<close> holds no page twice: the number of
  its distinct pages is its length. From such a state \<open>nextButtonLogic\<close>,
  \<open>moveToFinalPage\<close> and \<open>initializeHistory\<close> (called with the current page) leave
  \<open>historyStates\<close> as it is or append one page that is not in it; \<open>backButtonLogic\<close> and
  a \<^verbatim>\<open>popstate\<close> event leave it as it is.
\<close>

theorem historyStates_distinct:
  assumes "reachable s"
  shows "distinct (historyStates s) \<and> card (set (historyStates s)) = length (historyStates s) \<and>
         (historyStates (final (nextButtonLogic s)) = historyStates s \<or>
          (\<exists>p. p \<notin> set (historyStates s) \<and>
               historyStates (final (nextButtonLogic s)) = historyStates s @ [p])) \<and>
         (historyStates (final (moveToFinalPage s)) = historyStates s \<or>
          (\<exists>p. p \<notin> set (historyStates s) \<and>
               historyStates (final (moveToFinalPage s)) = historyStates s @ [p])) \<and>
         (historyStates (initializeHistory (currentPage s) s) = historyStates s \<or>
          (\<exists>p. p \<notin> set (historyStates s) \<and>
               historyStates (initializeHistory (currentPage s) s) = historyStates s @ [p])) \<and>
         historyStates (final (backButtonLogic s)) = historyStates s \<and>
         historyStates (dispatchPopState s eventState) = historyStates s"
proof -
  have inv: "navInvariant s" using assms by (rule reachable_navInvariant)
  then have num: "isNum (currentPage s)" by (simp add: navInvariant_def)
  have "historyStates (initializeHistory (currentPage s) s) = historyStates s \<or>
          (\<exists>p. p \<notin> set (historyStates s) \<and>
               historyStates (initializeHistory (currentPage s) s) = historyStates s @ [p])"
    using initializeHistory_historyStates [OF num] by auto
  then show ?thesis
    using inv nextButtonLogic_historyStates [OF num] moveToFinalPage_historyStates [OF num]
    by (simp add: navInvariant_def distinct_card backButtonLogic_historyStates
        dispatchPopState_historyStates)
qed

theorem historyStates_distinct_witness:
  "reachable demoPage2 \<and> distinct (historyStates demoPage2) \<and>
   historyStates demoPage2 = [Num 1, Num 2]"
proof -
  have "reachable demoLoaded"
    unfolding demoLoaded_def by (rule reachable.load)
  then have "reachable (consentCheckboxLogic True demoLoaded)" by (rule reachable.consent)
  then have r: "reachable demoPage2"
    unfolding demoPage2_def by (rule reachable.nextButton)
  show ?thesis using r historyStates_distinct [OF r] by (simp add: demoPage2_eq)
qed

section \<open>Submission: bounded retry, and failure leaves the session alone\<close>

lemma loop_fetch_bound:
  "length (filter isFetch (snd (submitData_loop data fetch retries i lastError trace)))
     \<le> length (filter isFetch trace) + nat (retries - i)"
proof (induction data fetch retries i lastError trace rule: submitData_loop.induct)
  case (1 data fetch retries i lastError trace)
  show ?case
  proof (cases "i < retries")
    case False
    then show ?thesis by (simp add: submitData_loop.simps [of data fetch retries i])
  next
    case True
    have n: "nat (retries - i) = Suc (nat (retries - (i + 1)))" using True by simp
    show ?thesis
    proof (cases "fetch i")
      case (Rejected msg)
      then show ?thesis
        using "1.IH"(1) [OF True Rejected] True
        by (simp add: submitData_loop.simps [of data fetch retries i] n)
    next
      case (Response status)
      then show ?thesis
        using "1.IH"(2) [OF True Response] True
        by (cases "response_ok status")
           (simp_all add: submitData_loop.simps [of data fetch retries i] n)
    qed
  qed
qed

text \<open>
  Claim C8. \<open>submitData\<close> makes at most \<open>retries\<close> requests. If request \<open>k\<close> is the first
  that succeeds, it returns that response after \<open>k\<close> failed attempts, each followed by a
  wait of 500 ms. If all \<open>retries\<close> requests fail, it throws the error of the last one
  (\<^verbatim>\<open>null\<close> when \<open>retries\<close> is not positive), again with a wait of 500 ms after each
  attempt. When the four attempts of \<open>submitButtonLogic\<close> fail, the current page,
  \<open>historyStates\<close>, the storage, the page shown and the history calls are unchanged, and
  the error message is shown.
\<close>

theorem submitData_bounded_retry:
  "length (filter isFetch (snd (submitData data fetch retries))) \<le> nat retries \<and>
   (0 \<le> k \<and> k < retries \<and> fetch k = Response status \<and> response_ok status \<and>
    (\<forall>j. 0 \<le> j \<and> j < k \<longrightarrow> attemptError (fetch j) \<noteq> None) \<longrightarrow>
      submitData data fetch retries = (Inr status, attemptTrace data (nat k) @ [Fetch data])) \<and>
   ((\<forall>j. 0 \<le> j \<and> j < retries \<longrightarrow> attemptError (fetch j) \<noteq> None) \<longrightarrow>
      submitData data fetch retries
        = (Inl (if 0 < retries then attemptError (fetch (retries - 1)) else None),
           attemptTrace data (nat retries))) \<and>
   ((\<forall>j. 0 \<le> j \<and> j < 4 \<longrightarrow> attemptError (fetch j) \<noteq> None) \<longrightarrow>
      currentPage (fst (submitButtonLogic fetch s)) = currentPage s \<and>
      historyStates (fst (submitButtonLogic fetch s)) = historyStates s \<and>
      storage (fst (submitButtonLogic fetch s)) = storage s \<and>
      activePage (fst (submitButtonLogic fetch s)) = activePage s \<and>
      historyCalls (fst (submitButtonLogic fetch s)) = historyCalls s \<and>
      uiLog (fst (submitButtonLogic fetch s))
        = uiLog s @ [Notification ''hide'' ''submit-error-message'',
                     Notification ''show'' ''submit-data-notification'', ScrollToBottom,
                     Notification ''hide'' ''submit-data-notification'',
                     Notification ''show'' ''submit-error-message'', ScrollToBottom] \<and>
      snd (submitButtonLogic fetch s) = attemptTrace (collectData s) 4)"
proof (intro conjI impI)
  show "length (filter isFetch (snd (submitData data fetch retries))) \<le> nat retries"
    using loop_fetch_bound [of data fetch retries 0 None "[]"] by (simp add: submitData_def)
next
  assume "0 \<le> k \<and> k < retries \<and> fetch k = Response status \<and> response_ok status \<and>
    (\<forall>j. 0 \<le> j \<and> j < k \<longrightarrow> attemptError (fetch j) \<noteq> None)"
  then show "submitData data fetch retries = (Inr status, attemptTrace data (nat k) @ [Fetch data])"
    using loop_first_success [of 0 k retries fetch status data None "[]"]
    by (simp add: submitData_def)
next
  assume "\<forall>j. 0 \<le> j \<and> j < retries \<longrightarrow> attemptError (fetch j) \<noteq> None"
  then show "submitData data fetch retries
        = (Inl (if 0 < retries then attemptError (fetch (retries - 1)) else None),
           attemptTrace data (nat retries))"
    using loop_all_fail [of 0 retries fetch data None "[]"] by (simp add: submitData_def)
next
  assume a: "\<forall>j. 0 \<le> j \<and> j < 4 \<longrightarrow> attemptError (fetch j) \<noteq> None"
  let ?s1 = "s\<lparr>uiLog := uiLog s @ [Notification ''hide'' ''submit-error-message'',
                                      Notification ''show'' ''submit-data-notification'',
                                      ScrollToBottom]\<rparr>"
  have sent: "submitData (collectData ?s1) fetch 4
        = (Inl (attemptError (fetch 3)), attemptTrace (collectData ?s1) 4)"
    using a loop_all_fail [of 0 4 fetch "collectData ?s1" None "[]"] by (simp add: submitData_def)
  have data: "collectData ?s1 = collectData s" by (simp add: collectData_def)
  have eq: "submitButtonLogic fetch s = (submitFailed ?s1, attemptTrace (collectData s) 4)"
    using sent data by (simp add: submitButtonLogic_def Let_def)
  show "currentPage (fst (submitButtonLogic fetch s)) = currentPage s"
    and "historyStates (fst (submitButtonLogic fetch s)) = historyStates s"
    and "storage (fst (submitButtonLogic fetch s)) = storage s"
    and "activePage (fst (submitButtonLogic fetch s)) = activePage s"
    and "historyCalls (fst (submitButtonLogic fetch s)) = historyCalls s"
    and "uiLog (fst (submitButtonLogic fetch s))
        = uiLog s @ [Notification ''hide'' ''submit-error-message'',
                     Notification ''show'' ''submit-data-notification'', ScrollToBottom,
                     Notification ''hide'' ''submit-data-notification'',
                     Notification ''show'' ''submit-error-message'', ScrollToBottom]"
    and "snd (submitButtonLogic fetch s) = attemptTrace (collectData s) 4"
    by (simp_all add: eq submitFailed_def)
qed

theorem submitData_bounded_retry_witness:
  "submitData (collectData demoLoaded) (\<lambda>i. Response 503) 4
     = (Inl (Some (ServerReturned 503)), attemptTrace (collectData demoLoaded) 4) \<and>
   currentPage (fst (submitButtonLogic (\<lambda>i. Response 503) demoLoaded)) = Num 1 \<and>
   storage (fst (submitButtonLogic (\<lambda>i. Response 503) demoLoaded)) = storage demoLoaded \<and>
   submitData (collectData demoLoaded) (\<lambda>i. if i = 2 then Response 200 else Rejected ''offline'') 4
     = (Inr 200, attemptTrace (collectData demoLoaded) 2 @ [Fetch (collectData demoLoaded)])"
  using submitData_bounded_retry [of "collectData demoLoaded" "\<lambda>i. Response 503" 4 0 0 demoLoaded]
    submitData_bounded_retry [of "collectData demoLoaded"
      "\<lambda>i. if i = 2 then Response 200 else Rejected ''offline''" 4 2 200 demoLoaded]
  by (simp add: response_ok_def demoLoaded_eq)

section \<open>Restoring the state on a load\<close>














section \<open>Further properties: boundaries, round trips and the chatbot page\<close>

text \<open>
  \<open>backButtonLogic\<close> changes nothing on page 1 and nothing on the last page: it acts only
  strictly between them.
\<close>

theorem backButtonLogic_boundary_noop:
  "currentPage s = Num 1 \<or> currentPage s = Num totalPages \<Longrightarrow> backButtonLogic s = Inr s"
  by (auto simp: backButtonLogic_def js_gt_def js_lt_def)

theorem backButtonLogic_boundary_noop_witness:
  "currentPage demoLoaded = Num 1 \<and> backButtonLogic demoLoaded = Inr demoLoaded \<and>
   currentPage demoFinal = Num totalPages \<and> backButtonLogic demoFinal = Inr demoFinal"
proof -
  have p: "currentPage demoLoaded = Num 1" "currentPage demoFinal = Num totalPages"
    by (simp_all add: demoLoaded_eq demoFinal_eq totalPages_def)
  show ?thesis
    using p backButtonLogic_boundary_noop [of demoLoaded] backButtonLogic_boundary_noop [of demoFinal]
    by blast
qed

text \<open>
  What \<open>saveNavigationState\<close> stores, \<open>restoreState\<close> reads back on the next load: the same
  current page and the same \<open>historyStates\<close>, when the pages are numbers.
\<close>

theorem snapshot_roundtrip:
  assumes "isNum (currentPage s)" and "list_all isNum (historyStates s)"
  shows "currentPage (final (restoreState (loadGlobals (storage (saveNavigationState s)) calls)))
           = currentPage s \<and>
         historyStates (final (restoreState (loadGlobals (storage (saveNavigationState s)) calls)))
           = historyStates s"
proof -
  obtain n where n: "currentPage s = Num n" using assms(1) by (cases "currentPage s") simp_all
  have nonempty: "showInt n \<noteq> []" by (rule showInt_nonempty)
  show ?thesis
    using n nonempty parseInt_toString [of n] jsonNumber_numeric [OF assms(2)]
    by (simp add: restoreState_currentPage restoreState_historyStates savedPageOr_def
        loadGlobals_def saveNavigationState_def)
qed

theorem snapshot_roundtrip_witness:
  "isNum (currentPage demoPage5) \<and> list_all isNum (historyStates demoPage5) \<and>
   currentPage (final (restoreState (loadGlobals (storage (saveNavigationState demoPage5)) [])))
     = Num 5 \<and>
   historyStates (final (restoreState (loadGlobals (storage (saveNavigationState demoPage5)) [])))
     = [Num 1, Num 2, Num 3, Num 4, Num 5]"
  using snapshot_roundtrip [of demoPage5 "[]"]
  by (simp add: demoPage5_fields)

text \<open>
  Saving the scroll position of a page and then showing that page queues a scroll to
  exactly the saved offset, on every page but the chatbot page.
\<close>

theorem scroll_roundtrip:
  assumes "\<not> strictEq (currentPage s) (Num chatbotPage)"
    and "\<not> strictEq pageNumber (Num chatbotPage)"
    and "showPage pageNumber (saveScrollPositions pageNumber s) = Inr s'"
  shows "pendingScroll s' = Some (windowScrollY s) \<and>
         scrollPositions s' pageNumber = Some (windowScrollY s)"
  using assms
  by (auto simp: showPage_def saveScrollPositions_def cancelScrollDelays_def
      applyChatbotViewState_def Let_def split: if_splits)

theorem scroll_roundtrip_witness:
  "\<not> strictEq (currentPage (demoPage2\<lparr>windowScrollY := 340\<rparr>)) (Num chatbotPage) \<and>
   pendingScroll (final (showPage (Num 2)
      (saveScrollPositions (Num 2) (demoPage2\<lparr>windowScrollY := 340\<rparr>)))) = Some 340"
proof -
  let ?s = "demoPage2\<lparr>windowScrollY := 340\<rparr>"
  obtain s' where r: "showPage (Num 2) (saveScrollPositions (Num 2) ?s) = Inr s'"
    by (simp add: showPage_def Let_def totalPages_def)
  have c: "\<not> strictEq (currentPage ?s) (Num chatbotPage)"
    by (simp add: demoPage2_eq chatbotPage_def)
  have p: "\<not> strictEq (Num 2) (Num chatbotPage)" by (simp add: chatbotPage_def)
  show ?thesis using c r scroll_roundtrip [OF c p r] by simp
qed

lemma demoPage4_fields:
  "currentPage demoPage4 = Num 4" "chatbotAlreadyOpened demoPage4" "chatbotVisible demoPage4"
  "scrollPositions demoPage4 (Num 4) = None"
  by (simp_all add: demoPage4_def demoPage2_eq nav_simps page_simps js_simps)

text \<open>While the chatbot page is the current page, no scroll position is saved.\<close>

theorem chatbot_page_scroll_not_saved:
  "strictEq (currentPage s) (Num chatbotPage) \<Longrightarrow> saveScrollPositions pageNumber s = s"
  by (simp add: saveScrollPositions_def)

theorem chatbot_page_scroll_not_saved_witness:
  "strictEq (currentPage demoPage4) (Num chatbotPage) \<and>
   saveScrollPositions (Num 4) (demoPage4\<lparr>windowScrollY := 77\<rparr>) = demoPage4\<lparr>windowScrollY := 77\<rparr>"
  using chatbot_page_scroll_not_saved [of "demoPage4\<lparr>windowScrollY := 77\<rparr>" "Num 4"]
  by (simp add: demoPage4_fields chatbotPage_def)

text \<open>
  In a fresh session three steps forward land on the chatbot page and dispatch the event
  \<^verbatim>\<open>userArrivedAtChatbot\<close> once; leaving the page and coming back opens the chatbot
  view again but does not dispatch that event a second time.
\<close>

theorem chatbot_arrival_signalled_once:
  "currentPage demoPage4 = Num chatbotPage \<and>
   count_list (uiLog demoPage4) (DispatchEvent ''userArrivedAtChatbot'') = 1 \<and>
   currentPage demoRevisit4 = Num chatbotPage \<and>
   count_list (uiLog demoRevisit4) (DispatchEvent ''userArrivedAtChatbot'') = 1 \<and>
   count_list (uiLog demoRevisit4) (DispatchEvent ''chatbotInterfaceOpened'') = 2"
  by (simp add: demoRevisit4_def demoPage4_def demoPage2_eq nav_simps page_simps js_simps)

end
